theory Spec2Isabelle
  imports Main
begin

chapter \<open>The program\<close>

section \<open>JavaScript values\<close>

text \<open>
  The configuration layer is plain JavaScript data: object literals, arrays, strings and
  integers. A value is modelled by \<open>jsval\<close>. An object is the list of the property
  definitions of its literal, in source order; as in an object literal, a later definition
  of a key overrides an earlier one, so reading a key takes its last definition and
  spreading one object into another is list concatenation. \<open>JBuiltin\<close> stands for a
  member that a value inherits from a built-in prototype (for instance \<open>toString\<close>
  of every object); only the access path is recorded.
\<close>

datatype jsval =
    JUndefined
  | JNull
  | JBool bool
  | JNum int
  | JNaN
  | JStr string
  | JArr "jsval list"
  | JObj "(string \<times> jsval) list"
  | JBuiltin string

datatype exn = Error string | TypeError

fun truthy :: "jsval \<Rightarrow> bool" where
  "truthy JUndefined = False"
| "truthy JNull = False"
| "truthy (JBool b) = b"
| "truthy (JNum n) = (n \<noteq> 0)"
| "truthy JNaN = False"
| "truthy (JStr s) = (s \<noteq> [])"
| "truthy (JArr xs) = True"
| "truthy (JObj kvs) = True"
| "truthy (JBuiltin n) = True"

fun nullish :: "jsval \<Rightarrow> bool" where
  "nullish JUndefined = True"
| "nullish JNull = True"
| "nullish v = False"

subsection \<open>Decimal keys\<close>

definition digit_char :: "nat \<Rightarrow> char" where
  "digit_char d = char_of (48 + d)"

fun show_nat :: "nat \<Rightarrow> string" where
  "show_nat n = (if n < 10 then [digit_char n] else show_nat (n div 10) @ [digit_char (n mod 10)])"

declare show_nat.simps [simp del]

definition is_digit :: "char \<Rightarrow> bool" where
  "is_digit c = ((48::nat) \<le> of_char c \<and> of_char c \<le> (57::nat))"

definition digit_val :: "char \<Rightarrow> nat" where
  "digit_val c = of_char c - 48"

definition read_nat :: "string \<Rightarrow> nat" where
  "read_nat s = foldl (\<lambda>acc c. 10 * acc + digit_val c) 0 s"

text \<open>
  A property key is an array index when it is the canonical decimal form of a number.
  (The language also asks for a number below \<open>2^32 - 1\<close>; the arrays and strings
  here are shorter, and no key of the registries is a number.)
\<close>

definition array_index :: "string \<Rightarrow> nat option" where
  "array_index k =
     (if k \<noteq> [] \<and> list_all is_digit k \<and> (hd k \<noteq> CHR ''0'' \<or> length k = 1)
      then Some (read_nat k) else None)"

subsection \<open>Property access\<close>

text \<open>Names every object inherits from \<open>Object.prototype\<close>.\<close>

definition object_prototype :: "string list" where
  "object_prototype =
     [''constructor'', ''__defineGetter__'', ''__defineSetter__'', ''hasOwnProperty'',
      ''__lookupGetter__'', ''__lookupSetter__'', ''isPrototypeOf'', ''propertyIsEnumerable'',
      ''toString'', ''valueOf'', ''__proto__'', ''toLocaleString'']"

text \<open>Names an array inherits from \<open>Array.prototype\<close> (ECMAScript 5 and 2015).\<close>

definition array_prototype :: "string list" where
  "array_prototype =
     [''concat'', ''copyWithin'', ''entries'', ''every'', ''fill'', ''filter'', ''find'',
      ''findIndex'', ''forEach'', ''includes'', ''indexOf'', ''join'', ''keys'',
      ''lastIndexOf'', ''map'', ''pop'', ''push'', ''reduce'', ''reduceRight'', ''reverse'',
      ''shift'', ''slice'', ''some'', ''sort'', ''splice'', ''unshift'', ''values'']"

text \<open>Names a string inherits from \<open>String.prototype\<close>.\<close>

definition string_prototype :: "string list" where
  "string_prototype =
     [''anchor'', ''big'', ''blink'', ''bold'', ''charAt'', ''charCodeAt'', ''codePointAt'',
      ''concat'', ''endsWith'', ''fixed'', ''fontcolor'', ''fontsize'', ''includes'',
      ''indexOf'', ''italics'', ''lastIndexOf'', ''link'', ''localeCompare'', ''match'',
      ''normalize'', ''padEnd'', ''padStart'', ''repeat'', ''replace'', ''search'', ''slice'',
      ''small'', ''split'', ''startsWith'', ''strike'', ''sub'', ''substr'', ''substring'',
      ''sup'', ''toLocaleLowerCase'', ''toLocaleUpperCase'', ''toLowerCase'', ''toUpperCase'',
      ''trim'', ''trimEnd'', ''trimLeft'', ''trimRight'', ''trimStart'']"

definition number_prototype :: "string list" where
  "number_prototype = [''toExponential'', ''toFixed'', ''toPrecision'']"

definition function_prototype :: "string list" where
  "function_prototype =
     [''apply'', ''arguments'', ''bind'', ''call'', ''caller'', ''length'', ''name'',
      ''prototype'']"

definition inherited :: "string list \<Rightarrow> string \<Rightarrow> jsval" where
  "inherited names k = (if k \<in> set names then JBuiltin k else JUndefined)"

text \<open>The last definition of a key in a literal is the one that counts.\<close>

definition lookup :: "(string \<times> jsval) list \<Rightarrow> string \<Rightarrow> jsval option" where
  "lookup kvs k = map_of (rev kvs) k"

text \<open>
  \<open>prop_of v k\<close> is \<open>v?.[k]\<close>: the own property, then the prototype chain, and
  \<open>undefined\<close> when \<open>v\<close> is \<open>null\<close> or \<open>undefined\<close>.
\<close>

fun prop_of :: "jsval \<Rightarrow> string \<Rightarrow> jsval" where
  "prop_of JUndefined k = JUndefined"
| "prop_of JNull k = JUndefined"
| "prop_of (JObj kvs) k =
     (case lookup kvs k of Some v \<Rightarrow> v | None \<Rightarrow> inherited object_prototype k)"
| "prop_of (JArr xs) k =
     (case array_index k of
        Some i \<Rightarrow> (if i < length xs then xs ! i else JUndefined)
      | None \<Rightarrow> (if k = ''length'' then JNum (int (length xs))
                 else inherited (array_prototype @ object_prototype) k))"
| "prop_of (JStr s) k =
     (case array_index k of
        Some i \<Rightarrow> (if i < length s then JStr [s ! i] else JUndefined)
      | None \<Rightarrow> (if k = ''length'' then JNum (int (length s))
                 else inherited (string_prototype @ object_prototype) k))"
| "prop_of (JNum n) k = inherited (number_prototype @ object_prototype) k"
| "prop_of JNaN k = inherited (number_prototype @ object_prototype) k"
| "prop_of (JBool b) k = inherited object_prototype k"
| "prop_of (JBuiltin n) k =
     (if k \<in> set (function_prototype @ array_prototype @ object_prototype)
      then JBuiltin (n @ ''.'' @ k) else JUndefined)"

text \<open>\<open>get_prop v k\<close> is \<open>v[k]\<close> or \<open>v.k\<close>: a \<open>TypeError\<close> on \<open>null\<close> and \<open>undefined\<close>.\<close>

definition get_prop :: "jsval \<Rightarrow> string \<Rightarrow> exn + jsval" where
  "get_prop v k = (if nullish v then Inl TypeError else Inr (prop_of v k))"

text \<open>
  \<open>own_props v\<close> is what the spread \<open>{...v}\<close> copies: the own enumerable properties.
  Spreading \<open>undefined\<close>, \<open>null\<close>, a number or a boolean copies nothing; an array or
  a string contributes its indices.
\<close>

fun own_props :: "jsval \<Rightarrow> (string \<times> jsval) list" where
  "own_props (JObj kvs) = kvs"
| "own_props (JArr xs) = map (\<lambda>i. (show_nat i, xs ! i)) [0..<length xs]"
| "own_props (JStr s) = map (\<lambda>i. (show_nat i, JStr [s ! i])) [0..<length s]"
| "own_props v = []"

definition own_keys :: "jsval \<Rightarrow> string set" where
  "own_keys v = fst ` set (own_props v)"

text \<open>
  \<open>Object.keys\<close>: the keys in order of first definition, integer keys first in
  ascending order.
\<close>

definition object_keys :: "jsval \<Rightarrow> string list" where
  "object_keys v =
     (let ks = rev (remdups (rev (map fst (own_props v))));
          ixs = filter (\<lambda>k. array_index k \<noteq> None) ks;
          names = filter (\<lambda>k. array_index k = None) ks
      in map show_nat (sort (map read_nat ixs)) @ names)"

section \<open>Test suites (config/test-suites.js)\<close>

definition stage :: "string \<Rightarrow> int \<Rightarrow> jsval" where
  "stage d t = JObj [(''duration'', JStr d), (''target'', JNum t)]"

definition testSuites :: jsval where
  "testSuites = JObj [
     (''smoke'', JObj [
        (''name'', JStr ''Smoke Test''),
        (''description'', JStr ''Quick validation with minimal load''),
        (''config'', JObj [
           (''vus'', JNum 1),
           (''duration'', JStr ''10s''),
           (''thresholds'', JObj [
              (''http_req_failed'', JArr [JStr ''rate<0.01''])])])]),
     (''load'', JObj [
        (''name'', JStr ''Load Test''),
        (''description'', JStr ''Test under normal expected load''),
        (''config'', JObj [
           (''vus'', JNum 50),
           (''duration'', JStr ''2m''),
           (''thresholds'', JObj [
              (''http_req_duration'', JArr [JStr ''p(95)<500'']),
              (''http_req_failed'', JArr [JStr ''rate<0.01''])])])]),
     (''stress'', JObj [
        (''name'', JStr ''Stress Test''),
        (''description'', JStr ''Find the breaking point of the system''),
        (''config'', JObj [
           (''stages'', JArr [
              stage ''2m'' 50, stage ''5m'' 50, stage ''2m'' 100, stage ''5m'' 100,
              stage ''2m'' 200, stage ''5m'' 200, stage ''2m'' 0]),
           (''thresholds'', JObj [
              (''http_req_duration'', JArr [JStr ''p(95)<1000'']),
              (''http_req_failed'', JArr [JStr ''rate<0.05''])])])]),
     (''spike'', JObj [
        (''name'', JStr ''Spike Test''),
        (''description'', JStr ''Test system behavior under sudden load spikes''),
        (''config'', JObj [
           (''stages'', JArr [
              stage ''1m'' 10, stage ''1m'' 100, stage ''1m'' 10, stage ''1m'' 200,
              stage ''1m'' 10]),
           (''thresholds'', JObj [
              (''http_req_duration'', JArr [JStr ''p(95)<2000'']),
              (''http_req_failed'', JArr [JStr ''rate<0.10''])])])]),
     (''endurance'', JObj [
        (''name'', JStr ''Endurance Test''),
        (''description'', JStr ''Test system stability over long periods''),
        (''config'', JObj [
           (''vus'', JNum 25),
           (''duration'', JStr ''30m''),
           (''thresholds'', JObj [
              (''http_req_duration'', JArr [JStr ''p(95)<500'']),
              (''http_req_failed'', JArr [JStr ''rate<0.01''])])])]),
     (''soak'', JObj [
        (''name'', JStr ''Soak Test''),
        (''description'', JStr ''Extended testing under sustained load''),
        (''config'', JObj [
           (''vus'', JNum 10),
           (''duration'', JStr ''2h''),
           (''thresholds'', JObj [
              (''http_req_duration'', JArr [JStr ''p(95)<300'']),
              (''http_req_failed'', JArr [JStr ''rate<0.005''])])])])]"

definition getTestSuite :: "string \<Rightarrow> jsval" where
  "getTestSuite name = prop_of testSuites name"

definition getAllTestSuiteNames :: "string list" where
  "getAllTestSuiteNames = object_keys testSuites"

definition quoted :: "string \<Rightarrow> string" where
  "quoted s = [CHR 0x27] @ s @ [CHR 0x27]"

text \<open>
  \<open>mergeConfigs\<close>, line by line: the suite lookup and its guard, the endpoint's own
  configuration under the suite name (\<open>endpoint.testConfig?.[testSuiteName] || {}\<close>),
  then the object literal: both spreads, and a fresh \<open>thresholds\<close> object built from
  the two threshold objects. Reading \<open>testSuite.config.thresholds\<close> throws when
  \<open>testSuite.config\<close> is missing.
\<close>

definition mergeConfigs :: "jsval \<Rightarrow> string \<Rightarrow> exn + jsval" where
  "mergeConfigs endpoint testSuiteName =
     (let testSuite = prop_of testSuites testSuiteName in
      if \<not> truthy testSuite
      then Inl (Error (''Test suite '' @ quoted testSuiteName @ '' not found''))
      else
        (case get_prop endpoint ''testConfig'' of
           Inl e \<Rightarrow> Inl e
         | Inr testConfig \<Rightarrow>
             (let own = prop_of testConfig testSuiteName;
                  endpointConfig = (if truthy own then own else JObj []);
                  config = prop_of testSuite ''config''
              in case get_prop config ''thresholds'' of
                   Inl e \<Rightarrow> Inl e
                 | Inr suiteThresholds \<Rightarrow>
                     Inr (JObj (own_props config @ own_props endpointConfig @
                            [(''thresholds'',
                              JObj (own_props suiteThresholds @
                                    own_props (prop_of endpointConfig ''thresholds'')))])))))"

text \<open>
  What the claims about the merge compare the result with: the thresholds of a suite, and
  the endpoint's own configuration for a suite (the empty object when there is none).
\<close>

definition suite_config :: "string \<Rightarrow> jsval" where
  "suite_config name = prop_of (prop_of testSuites name) ''config''"

definition suite_thresholds :: "string \<Rightarrow> jsval" where
  "suite_thresholds name = prop_of (suite_config name) ''thresholds''"

definition endpoint_override :: "jsval \<Rightarrow> string \<Rightarrow> jsval" where
  "endpoint_override endpoint name =
     (let own = prop_of (prop_of endpoint ''testConfig'') name
      in if truthy own then own else JObj [])"

text \<open>Two objects with the same keys, in the same order, and the same value under each.\<close>

definition same_object :: "jsval \<Rightarrow> jsval \<Rightarrow> bool" where
  "same_object a b =
     (object_keys a = object_keys b \<and> (\<forall>k \<in> set (object_keys a). prop_of a k = prop_of b k))"

section \<open>Endpoints (config/endpoints.js)\<close>

definition endpoints :: jsval where
  "endpoints = JObj [
     (''users-me'', JObj [
        (''name'', JStr ''Get Current User''),
        (''method'', JStr ''GET''),
        (''path'', JStr ''/platform-services/v2/users/me''),
        (''baseUrl'', JStr ''https://dev-api.acexr.com''),
        (''requiresAuth'', JBool True),
        (''testConfig'', JObj [
           (''loadTest'', JObj [
              (''vus'', JNum 100),
              (''duration'', JStr ''1m''),
              (''thresholds'', JObj [
                 (''http_req_duration'', JArr [JStr ''p(95)<100'']),
                 (''http_req_failed'', JArr [JStr ''rate<0.01''])])]),
           (''smokeTest'', JObj [(''vus'', JNum 1), (''duration'', JStr ''10s'')])]),
        (''validation'', JObj [
           (''expectedStatus'', JNum 200),
           (''responseTime'', JNum 500),
           (''requiredHeaders'', JArr [JStr ''Content-Type''])])]),
     (''client-configs'', JObj [
        (''name'', JStr ''Get Client Configurations''),
        (''method'', JStr ''GET''),
        (''path'', JStr ''/platform-services/v2/client-configs''),
        (''baseUrl'', JStr ''https://dev-api.acexr.com''),
        (''requiresAuth'', JBool False),
        (''testConfig'', JObj [
           (''loadTest'', JObj [
              (''vus'', JNum 50),
              (''duration'', JStr ''2m''),
              (''thresholds'', JObj [
                 (''http_req_duration'', JArr [JStr ''p(95)<200'']),
                 (''http_req_failed'', JArr [JStr ''rate<0.01''])])]),
           (''smokeTest'', JObj [(''vus'', JNum 1), (''duration'', JStr ''10s'')])]),
        (''validation'', JObj [
           (''expectedStatus'', JNum 200),
           (''responseTime'', JNum 1000),
           (''requiredHeaders'', JArr [JStr ''Content-Type''])])]),
     (''health-check'', JObj [
        (''name'', JStr ''Health Check''),
        (''method'', JStr ''GET''),
        (''path'', JStr ''/platform-services/v2/health''),
        (''baseUrl'', JStr ''https://dev-api.acexr.com''),
        (''requiresAuth'', JBool False),
        (''testConfig'', JObj [
           (''loadTest'', JObj [
              (''vus'', JNum 200),
              (''duration'', JStr ''5m''),
              (''thresholds'', JObj [
                 (''http_req_duration'', JArr [JStr ''p(95)<50'']),
                 (''http_req_failed'', JArr [JStr ''rate<0.001''])])]),
           (''smokeTest'', JObj [(''vus'', JNum 1), (''duration'', JStr ''10s'')])]),
        (''validation'', JObj [
           (''expectedStatus'', JNum 200),
           (''responseTime'', JNum 100),
           (''requiredHeaders'', JArr [JStr ''Content-Type''])])]),
     (''create-user'', JObj [
        (''name'', JStr ''Create User''),
        (''method'', JStr ''POST''),
        (''path'', JStr ''/platform-services/v2/users''),
        (''baseUrl'', JStr ''https://dev-api.acexr.com''),
        (''requiresAuth'', JBool True),
        (''testConfig'', JObj [
           (''loadTest'', JObj [
              (''vus'', JNum 30),
              (''duration'', JStr ''1m''),
              (''thresholds'', JObj [
                 (''http_req_duration'', JArr [JStr ''p(95)<300'']),
                 (''http_req_failed'', JArr [JStr ''rate<0.05''])])]),
           (''smokeTest'', JObj [(''vus'', JNum 1), (''duration'', JStr ''10s'')])]),
        (''validation'', JObj [
           (''expectedStatus'', JNum 201),
           (''responseTime'', JNum 1000),
           (''requiredHeaders'', JArr [JStr ''Content-Type'', JStr ''Location''])])]),
     (''update-user'', JObj [
        (''name'', JStr ''Update User''),
        (''method'', JStr ''PATCH''),
        (''path'', JStr ''/platform-services/v2/users/{id}''),
        (''baseUrl'', JStr ''https://dev-api.acexr.com''),
        (''requiresAuth'', JBool True),
        (''testConfig'', JObj [
           (''loadTest'', JObj [
              (''vus'', JNum 20),
              (''duration'', JStr ''1m''),
              (''thresholds'', JObj [
                 (''http_req_duration'', JArr [JStr ''p(95)<250'']),
                 (''http_req_failed'', JArr [JStr ''rate<0.03''])])]),
           (''smokeTest'', JObj [(''vus'', JNum 1), (''duration'', JStr ''10s'')])]),
        (''validation'', JObj [
           (''expectedStatus'', JNum 200),
           (''responseTime'', JNum 800),
           (''requiredHeaders'', JArr [JStr ''Content-Type''])])]),
     (''auth/signin'', JObj [
        (''name'', JStr ''Sign In''),
        (''method'', JStr ''POST''),
        (''path'', JStr ''/platform-services/v2/auth/signin''),
        (''baseUrl'', JStr ''https://dev-api.acexr.com''),
        (''requiresAuth'', JBool True),
        (''testConfig'', JObj [
           (''loadTest'', JObj [
              (''vus'', JNum 20),
              (''duration'', JStr ''1m''),
              (''thresholds'', JObj [
                 (''http_req_duration'', JArr [JStr ''p95<250'']),
                 (''http_req_failed'', JArr [JStr ''rate<0.03''])])]),
           (''smokeTest'', JObj [(''vus'', JNum 1), (''duration'', JStr ''10s'')])]),
        (''validation'', JObj [
           (''expectedStatus'', JNum 200),
           (''responseTime'', JNum 800),
           (''requiredHeaders'', JArr [JStr ''Content-Type''])])])]"

definition getEndpoint :: "string \<Rightarrow> jsval" where
  "getEndpoint key = prop_of endpoints key"

definition getAllEndpoints :: "string list" where
  "getAllEndpoints = object_keys endpoints"

definition object_entries :: "jsval \<Rightarrow> (string \<times> jsval) list" where
  "object_entries v = map (\<lambda>k. (k, prop_of v k)) (object_keys v)"

text \<open>\<open>toUpperCase\<close> on the ASCII letters; other bytes are left as they are.\<close>

definition upper_char :: "char \<Rightarrow> char" where
  "upper_char c =
     (if (97::nat) \<le> of_char c \<and> of_char c \<le> (122::nat) then char_of (of_char c - (32::nat)) else c)"

definition toUpperCase :: "string \<Rightarrow> string" where
  "toUpperCase s = map upper_char s"

definition getEndpointsByMethod :: "string \<Rightarrow> jsval" where
  "getEndpointsByMethod method =
     JObj (filter (\<lambda>(key, endpoint). prop_of endpoint ''method'' = JStr (toUpperCase method))
             (object_entries endpoints))"

definition getAuthenticatedEndpoints :: jsval where
  "getAuthenticatedEndpoints =
     JObj (filter (\<lambda>(key, endpoint). truthy (prop_of endpoint ''requiresAuth''))
             (object_entries endpoints))"

section \<open>String conversions\<close>

fun show_int :: "int \<Rightarrow> string" where
  "show_int i = (if i < 0 then CHR ''-'' # show_nat (nat (- i)) else show_nat (nat i))"

fun join :: "string \<Rightarrow> string list \<Rightarrow> string" where
  "join sep [] = []"
| "join sep [x] = x"
| "join sep (x # y # ys) = x @ sep @ join sep (y # ys)"

text \<open>
  \<open>to_string\<close> is the conversion a template literal, a property key and \<open>+\<close> apply.
  Arrays and objects convert by their default \<open>toString\<close>; the text of a built-in
  function is engine-specific and is represented by its access path.
\<close>

fun to_string :: "jsval \<Rightarrow> string" where
  "to_string JUndefined = ''undefined''"
| "to_string JNull = ''null''"
| "to_string (JBool b) = (if b then ''true'' else ''false'')"
| "to_string (JNum n) = show_int n"
| "to_string JNaN = ''NaN''"
| "to_string (JStr s) = s"
| "to_string (JArr xs) =
     join '','' (map (\<lambda>x. if nullish x then [] else to_string x) xs)"
| "to_string (JObj kvs) = ''[object Object]''"
| "to_string (JBuiltin n) = n"

fun is_primitive :: "jsval \<Rightarrow> bool" where
  "is_primitive (JArr xs) = False"
| "is_primitive (JObj kvs) = False"
| "is_primitive (JBuiltin n) = False"
| "is_primitive v = True"

text \<open>
  \<open>a + b\<close>: concatenation as soon as one operand is a string or converts to one,
  addition of numbers otherwise.
\<close>

fun to_number :: "jsval \<Rightarrow> int option" where
  "to_number JNull = Some 0"
| "to_number (JBool b) = Some (if b then 1 else 0)"
| "to_number (JNum n) = Some n"
| "to_number v = None"

fun is_string :: "jsval \<Rightarrow> bool" where
  "is_string (JStr s) = True"
| "is_string v = False"

definition js_plus :: "jsval \<Rightarrow> jsval \<Rightarrow> jsval" where
  "js_plus a b =
     (if is_string a \<or> is_string b \<or> \<not> is_primitive a \<or> \<not> is_primitive b
      then JStr (to_string a @ to_string b)
      else (case (to_number a, to_number b) of
              (Some x, Some y) \<Rightarrow> JNum (x + y)
            | _ \<Rightarrow> JNaN))"

text \<open>\<open>s.split(c)\<close> for a one-character separator.\<close>

fun split_on :: "char \<Rightarrow> string \<Rightarrow> string list" where
  "split_on c [] = [[]]"
| "split_on c (x # xs) =
     (if x = c then [] # split_on c xs
      else (case split_on c xs of
              [] \<Rightarrow> [[x]]
            | w # ws \<Rightarrow> (x # w) # ws))"

text \<open>
  \<open>parseInt\<close> as called with one argument: leading white space, a sign, a
  \<open>0x\<close> prefix selecting radix 16, then the longest run of digits; \<open>NaN\<close> when there
  is none. Numbers are exact integers here (a double is exact up to \<open>2^53\<close>).
\<close>

definition is_space :: "char \<Rightarrow> bool" where
  "is_space c = (c \<in> set [CHR '' '', CHR 0x09, CHR 0x0A, CHR 0x0B, CHR 0x0C, CHR 0x0D])"

definition radix_digit :: "nat \<Rightarrow> char \<Rightarrow> nat option" where
  "radix_digit radix c =
     (let n = (of_char c :: nat);
          d = (if 48 \<le> n \<and> n \<le> 57 then Some (n - 48)
               else if 97 \<le> n \<and> n \<le> 102 then Some (n - 87)
               else if 65 \<le> n \<and> n \<le> 70 then Some (n - 55)
               else None)
      in case d of None \<Rightarrow> None | Some v \<Rightarrow> (if v < radix then Some v else None))"

definition read_radix :: "nat \<Rightarrow> string \<Rightarrow> nat" where
  "read_radix radix s = foldl (\<lambda>acc c. radix * acc + the (radix_digit radix c)) 0 s"

definition parseInt :: "string \<Rightarrow> jsval" where
  "parseInt s =
     (let t = dropWhile is_space s;
          neg = (case t of c # r \<Rightarrow> c = CHR ''-'' | [] \<Rightarrow> False);
          u = (case t of c # r \<Rightarrow> (if c = CHR ''-'' \<or> c = CHR ''+'' then r else t) | [] \<Rightarrow> t);
          hex = (take 2 u = ''0x'' \<or> take 2 u = ''0X'');
          radix = (if hex then 16 else 10);
          w = (if hex then drop 2 u else u);
          ds = takeWhile (\<lambda>c. radix_digit radix c \<noteq> None) w
      in if ds = [] then JNaN
         else JNum ((if neg then - 1 else 1) * int (read_radix radix ds)))"

section \<open>Batch configuration (scripts/batch-test-runner.js, module level)\<close>

text \<open>
  The batch runner is the file the wrapper script starts as
  \<open>scripts/batch-test-runner.js\<close> (\<open>src/unnamed/part_003\<close>).
\<close>

text \<open>\<open>__ENV\<close>: the environment variables the engine passes to the script, all strings.\<close>

type_synonym env = "string \<rightharpoonup> string"

definition env_get :: "env \<Rightarrow> string \<Rightarrow> jsval" where
  "env_get E k = (case E k of None \<Rightarrow> JUndefined | Some s \<Rightarrow> JStr s)"

text \<open>\<open>a || d\<close> for a default \<open>d\<close>.\<close>

definition or_else :: "jsval \<Rightarrow> jsval \<Rightarrow> jsval" where
  "or_else a d = (if truthy a then a else d)"

definition batchConfig :: "env \<Rightarrow> jsval" where
  "batchConfig E = JObj [
     (''smoke'', JObj [
        (''name'', JStr ''Smoke Test All Endpoints''),
        (''description'', JStr ''Quick validation of all endpoints''),
        (''endpoints'', JArr (map JStr getAllEndpoints)),
        (''testSuite'', JStr ''smoke''),
        (''parallel'', JBool False),
        (''delayBetweenEndpoints'', JNum 5)]),
     (''getEndpointsLoad'', JObj [
        (''name'', JStr ''Load Test All GET Endpoints''),
        (''description'', JStr ''Load test all GET endpoints''),
        (''endpoints'', JArr (map JStr (object_keys (getEndpointsByMethod ''GET'')))),
        (''testSuite'', JStr ''load''),
        (''parallel'', JBool True),
        (''maxConcurrent'', JNum 3)]),
     (''postEndpointsStress'', JObj [
        (''name'', JStr ''Stress Test All POST Endpoints''),
        (''description'', JStr ''Stress test all POST endpoints''),
        (''endpoints'', JArr (map JStr (object_keys (getEndpointsByMethod ''POST'')))),
        (''testSuite'', JStr ''stress''),
        (''parallel'', JBool False),
        (''delayBetweenEndpoints'', JNum 10)]),
     (''custom'', JObj [
        (''name'', JStr ''Custom Batch Test''),
        (''description'', JStr ''Custom endpoint and test suite combination''),
        (''endpoints'',
           (if truthy (env_get E ''BATCH_ENDPOINTS'')
            then JArr (map JStr (split_on CHR '','' (to_string (env_get E ''BATCH_ENDPOINTS''))))
            else JArr [JStr ''users-me'', JStr ''health-check''])),
        (''testSuite'', or_else (env_get E ''BATCH_TEST_SUITE'') (JStr ''load'')),
        (''parallel'', JBool (env_get E ''BATCH_PARALLEL'' = JStr ''true'')),
        (''maxConcurrent'',
           parseInt (to_string (or_else (env_get E ''BATCH_MAX_CONCURRENT'') (JStr ''2'')))),
        (''delayBetweenEndpoints'',
           parseInt (to_string (or_else (env_get E ''BATCH_DELAY'') (JStr ''5''))))])]"

definition batchKey :: "env \<Rightarrow> string" where
  "batchKey E = to_string (or_else (env_get E ''BATCH_CONFIG'') (JStr ''smoke''))"

text \<open>The lookup of the batch and its guard (lines 53 to 57).\<close>

definition batch :: "env \<Rightarrow> exn + jsval" where
  "batch E =
     (let b = prop_of (batchConfig E) (batchKey E) in
      if \<not> truthy b
      then Inl (Error (''Batch configuration '' @ quoted (batchKey E) @ '' not found. Available: '' @
                       join '', '' (object_keys (batchConfig E))))
      else Inr b)"

text \<open>
  The planner of the specification: the batch the runner resolves when it is started with
  \<open>BATCH_CONFIG\<close> set to the batch name, as the wrapper script does.
\<close>

definition plan :: "string \<Rightarrow> env \<Rightarrow> exn + jsval" where
  "plan batchName E = batch (E(''BATCH_CONFIG'' \<mapsto> batchName))"





section \<open>Test data (scripts/test-data.js)\<close>








section \<open>The batch runner (scripts/batch-test-runner.js, functions)\<close>













section \<open>The wrapper script (scripts/run-batch-test.sh)\<close>













section \<open>Building a URL (config/endpoints.js, buildUrl)\<close>

text \<open>
  \<open>s.replace(pattern, replacement)\<close> with a string pattern: the first occurrence only,
  and in the replacement \<open>$$\<close>, \<open>$&\<close>, \<open>$`\<close> and \<open>$'\<close> stand for a dollar sign,
  the matched text, the text before it and the text after it. \<open>find_sub\<close> splits a
  string at the first occurrence of the pattern.
\<close>

fun find_sub :: "string \<Rightarrow> string \<Rightarrow> (string \<times> string) option" where
  "find_sub pat [] = (if pat = [] then Some ([], []) else None)"
| "find_sub pat (c # cs) =
     (if take (length pat) (c # cs) = pat then Some ([], drop (length pat) (c # cs))
      else map_option (\<lambda>(b, a). (c # b, a)) (find_sub pat cs))"

fun expand :: "string \<Rightarrow> string \<Rightarrow> string \<Rightarrow> string \<Rightarrow> string" where
  "expand pre m post [] = []"
| "expand pre m post [c] = [c]"
| "expand pre m post (c # d # r) =
     (if c = CHR ''$'' \<and> d = CHR ''$'' then CHR ''$'' # expand pre m post r
      else if c = CHR ''$'' \<and> d = CHR ''&'' then m @ expand pre m post r
      else if c = CHR ''$'' \<and> d = CHR 0x60 then pre @ expand pre m post r
      else if c = CHR ''$'' \<and> d = CHR 0x27 then post @ expand pre m post r
      else c # expand pre m post (d # r))"

definition replace_first :: "string \<Rightarrow> string \<Rightarrow> string \<Rightarrow> string" where
  "replace_first s pat replacement =
     (case find_sub pat s of
        None \<Rightarrow> s
      | Some (pre, post) \<Rightarrow> pre @ expand pre pat post replacement @ post)"

text \<open>
  One round of the \<open>forEach\<close> over \<open>Object.entries(params)\<close>. \<open>url\<close> is a string
  unless the endpoint lacks \<open>baseUrl\<close> and \<open>path\<close>; a number has no \<open>replace\<close>.
\<close>

definition replace_param :: "exn + jsval \<Rightarrow> string \<times> jsval \<Rightarrow> exn + jsval" where
  "replace_param acc kv =
     (case acc of
        Inl e \<Rightarrow> Inl e
      | Inr (JStr u) \<Rightarrow> Inr (JStr (replace_first u (''{'' @ fst kv @ ''}'') (to_string (snd kv))))
      | Inr v \<Rightarrow> Inl TypeError)"

definition buildUrl :: "string \<Rightarrow> jsval \<Rightarrow> exn + jsval" where
  "buildUrl endpointKey params =
     (let endpoint = prop_of endpoints endpointKey in
      if \<not> truthy endpoint
      then Inl (Error (''Endpoint '' @ quoted endpointKey @ '' not found''))
      else if params = JNull then Inl TypeError
      else foldl replace_param
             (Inr (js_plus (prop_of endpoint ''baseUrl'') (prop_of endpoint ''path'')))
             (object_entries (if params = JUndefined then JObj [] else params)))"

text \<open>
  The substitution the specification describes: every placeholder \<open>{name}\<close> of the
  template whose name is a key of the parameter map becomes the map's value, every other
  placeholder stays as it is. The second argument is the placeholder being read, if any.
\<close>

fun fill :: "(string \<rightharpoonup> string) \<Rightarrow> string option \<Rightarrow> string \<Rightarrow> string" where
  "fill m None [] = []"
| "fill m (Some n) [] = CHR ''{'' # n"
| "fill m None (c # cs) = (if c = CHR ''{'' then fill m (Some []) cs else c # fill m None cs)"
| "fill m (Some n) (c # cs) =
     (if c = CHR ''}'' then (case m n of Some v \<Rightarrow> v | None \<Rightarrow> CHR ''{'' # n @ ''}'') @ fill m None cs
      else if c = CHR ''{'' then CHR ''{'' # n @ fill m (Some []) cs
      else fill m (Some (n @ [c])) cs)"

definition fill_template :: "(string \<rightharpoonup> string) \<Rightarrow> string \<Rightarrow> string" where
  "fill_template m template = fill m None template"

section \<open>mergeConfigs on a store\<close>

text \<open>
  To speak about mutation, objects live in a store: a list of cells, an object or an array
  each, addressed by position. A value is a primitive or a reference to a cell; creating an
  object appends a cell, and nothing else changes the store.
\<close>

type_synonym addr = nat

datatype hval =
    HUndefined | HNull | HBool bool | HNum int | HNaN | HStr string
  | HRef addr
  | HBuiltin string

datatype cell = Obj "(string \<times> hval) list" | Arr "hval list"

type_synonym store = "cell list"

fun h_truthy :: "hval \<Rightarrow> bool" where
  "h_truthy HUndefined = False"
| "h_truthy HNull = False"
| "h_truthy (HBool b) = b"
| "h_truthy (HNum n) = (n \<noteq> 0)"
| "h_truthy HNaN = False"
| "h_truthy (HStr s) = (s \<noteq> [])"
| "h_truthy (HRef a) = True"
| "h_truthy (HBuiltin n) = True"

fun h_nullish :: "hval \<Rightarrow> bool" where
  "h_nullish HUndefined = True"
| "h_nullish HNull = True"
| "h_nullish v = False"

definition h_inherited :: "string list \<Rightarrow> string \<Rightarrow> hval" where
  "h_inherited names k = (if k \<in> set names then HBuiltin k else HUndefined)"

definition h_lookup :: "(string \<times> hval) list \<Rightarrow> string \<Rightarrow> hval option" where
  "h_lookup kvs k = map_of (rev kvs) k"

definition cell_at :: "store \<Rightarrow> addr \<Rightarrow> cell option" where
  "cell_at st a = (if a < length st then Some (st ! a) else None)"

fun cell_prop :: "cell \<Rightarrow> string \<Rightarrow> hval" where
  "cell_prop (Obj kvs) k =
     (case h_lookup kvs k of Some v \<Rightarrow> v | None \<Rightarrow> h_inherited object_prototype k)"
| "cell_prop (Arr xs) k =
     (case array_index k of
        Some i \<Rightarrow> (if i < length xs then xs ! i else HUndefined)
      | None \<Rightarrow> (if k = ''length'' then HNum (int (length xs))
                 else h_inherited (array_prototype @ object_prototype) k))"

fun h_prop :: "store \<Rightarrow> hval \<Rightarrow> string \<Rightarrow> hval" where
  "h_prop st (HRef a) k = (case cell_at st a of None \<Rightarrow> HUndefined | Some c \<Rightarrow> cell_prop c k)"
| "h_prop st (HStr s) k =
     (case array_index k of
        Some i \<Rightarrow> (if i < length s then HStr [s ! i] else HUndefined)
      | None \<Rightarrow> (if k = ''length'' then HNum (int (length s))
                 else h_inherited (string_prototype @ object_prototype) k))"
| "h_prop st (HNum n) k = h_inherited (number_prototype @ object_prototype) k"
| "h_prop st HNaN k = h_inherited (number_prototype @ object_prototype) k"
| "h_prop st (HBool b) k = h_inherited object_prototype k"
| "h_prop st (HBuiltin n) k =
     (if k \<in> set (function_prototype @ array_prototype @ object_prototype)
      then HBuiltin (n @ ''.'' @ k) else HUndefined)"
| "h_prop st HUndefined k = HUndefined"
| "h_prop st HNull k = HUndefined"

fun cell_own :: "cell \<Rightarrow> (string \<times> hval) list" where
  "cell_own (Obj kvs) = kvs"
| "cell_own (Arr xs) = map (\<lambda>i. (show_nat i, xs ! i)) [0..<length xs]"

fun h_own :: "store \<Rightarrow> hval \<Rightarrow> (string \<times> hval) list" where
  "h_own st (HRef a) = (case cell_at st a of None \<Rightarrow> [] | Some c \<Rightarrow> cell_own c)"
| "h_own st (HStr s) = map (\<lambda>i. (show_nat i, HStr [s ! i])) [0..<length s]"
| "h_own st v = []"

text \<open>An object or array literal: a new cell at the end of the store.\<close>

definition alloc :: "store \<Rightarrow> cell \<Rightarrow> hval \<times> store" where
  "alloc st c = (HRef (length st), st @ [c])"

text \<open>
  \<open>mergeConfigs\<close> on the store. \<open>suites\<close> is the address of \<open>testSuites\<close>. The
  steps are those of the source: the guarded lookup, \<open>endpoint.testConfig\<close>, the own
  configuration or a new empty object (\<open>|| {}\<close>), then the two object literals, each
  entered in the store once its properties have been read.
\<close>

definition mergeConfigs_st :: "store \<Rightarrow> addr \<Rightarrow> hval \<Rightarrow> string \<Rightarrow> exn + (hval \<times> store)" where
  "mergeConfigs_st st suites endpoint testSuiteName =
     (let testSuite = h_prop st (HRef suites) testSuiteName in
      if \<not> h_truthy testSuite
      then Inl (Error (''Test suite '' @ quoted testSuiteName @ '' not found''))
      else if h_nullish endpoint then Inl TypeError
      else
        (let own = h_prop st (h_prop st endpoint ''testConfig'') testSuiteName;
             (endpointConfig, st1) = (if h_truthy own then (own, st) else alloc st (Obj []));
             config = h_prop st1 testSuite ''config''
         in if h_nullish config then Inl TypeError
            else
              (let (thresholds, st2) =
                     alloc st1 (Obj (h_own st1 (h_prop st1 config ''thresholds'') @
                                     h_own st1 (h_prop st1 endpointConfig ''thresholds'')));
                   (result, st3) =
                     alloc st2 (Obj (h_own st2 config @ h_own st2 endpointConfig @
                                     [(''thresholds'', thresholds)]))
               in Inr (result, st3))))"

text \<open>
  A reference is valid when it points into the store; a store is closed when every
  reference kept in a cell is valid.
\<close>

fun valid :: "store \<Rightarrow> hval \<Rightarrow> bool" where
  "valid st (HRef a) = (a < length st)"
| "valid st v = True"

fun cell_values :: "cell \<Rightarrow> hval list" where
  "cell_values (Obj kvs) = map snd kvs"
| "cell_values (Arr xs) = xs"

definition closed :: "store \<Rightarrow> bool" where
  "closed st = (\<forall>c \<in> set st. \<forall>v \<in> set (cell_values c). valid st v)"

text \<open>Deep equality to a depth: equal primitives, the same reference, or cells that agree
  entry by entry one level down.\<close>

fun deep_equal :: "nat \<Rightarrow> store \<Rightarrow> hval \<Rightarrow> hval \<Rightarrow> bool" where
  "deep_equal 0 st a b = (a = b)"
| "deep_equal (Suc n) st a b =
     (a = b \<or>
      (case (a, b) of
         (HRef x, HRef y) \<Rightarrow>
           (case (cell_at st x, cell_at st y) of
              (Some (Obj k1), Some (Obj k2)) \<Rightarrow>
                 map fst k1 = map fst k2 \<and>
                 list_all2 (deep_equal n st) (map snd k1) (map snd k2)
            | (Some (Arr x1), Some (Arr x2)) \<Rightarrow> list_all2 (deep_equal n st) x1 x2
            | _ \<Rightarrow> False)
       | _ \<Rightarrow> False))"

text \<open>
  For the proofs: the reason why the merge fails, if it does, and the cells it appends
  otherwise, both as functions of what it reads.
\<close>

definition merged_cells :: "store \<Rightarrow> addr \<Rightarrow> hval \<Rightarrow> string \<Rightarrow> nat \<Rightarrow> cell list" where
  "merged_cells st suites endpoint name base =
     (let testSuite = h_prop st (HRef suites) name;
          own = h_prop st (h_prop st endpoint ''testConfig'') name;
          config = h_prop st testSuite ''config'';
          pre = (if h_truthy own then [] else [Obj []])
      in pre @
         [Obj (h_own st (h_prop st config ''thresholds'') @
               (if h_truthy own then h_own st (h_prop st own ''thresholds'') else [])),
          Obj (h_own st config @ (if h_truthy own then h_own st own else []) @
               [(''thresholds'', HRef (base + length pre))])])"

definition merge_fails :: "store \<Rightarrow> addr \<Rightarrow> hval \<Rightarrow> string \<Rightarrow> exn option" where
  "merge_fails st suites endpoint name =
     (let testSuite = h_prop st (HRef suites) name in
      if \<not> h_truthy testSuite
      then Some (Error (''Test suite '' @ quoted name @ '' not found''))
      else if h_nullish endpoint then Some TypeError
      else if h_nullish (h_prop st testSuite ''config'') then Some TypeError
      else None)"

text \<open>
  A store value denotes a value of the first model when the two unfold to the same data:
  a reference to an object cell denotes the object of its properties, key by key.
\<close>

inductive denotes :: "store \<Rightarrow> hval \<Rightarrow> jsval \<Rightarrow> bool" where
  d_undefined: "denotes st HUndefined JUndefined"
| d_null: "denotes st HNull JNull"
| d_bool: "denotes st (HBool b) (JBool b)"
| d_num: "denotes st (HNum n) (JNum n)"
| d_nan: "denotes st HNaN JNaN"
| d_str: "denotes st (HStr s) (JStr s)"
| d_builtin: "denotes st (HBuiltin n) (JBuiltin n)"
| d_obj: "cell_at st a = Some (Obj kvs) \<Longrightarrow>
          list_all2 (\<lambda>kv kj. fst kv = fst kj \<and> denotes st (snd kv) (snd kj)) kvs jkvs \<Longrightarrow>
          denotes st (HRef a) (JObj jkvs)"
| d_arr: "cell_at st a = Some (Arr xs) \<Longrightarrow> list_all2 (denotes st) xs js \<Longrightarrow>
          denotes st (HRef a) (JArr js)"

abbreviation entries_denote :: "store \<Rightarrow> (string \<times> hval) list \<Rightarrow> (string \<times> jsval) list \<Rightarrow> bool" where
  "entries_denote st \<equiv> list_all2 (\<lambda>kv kj. fst kv = fst kj \<and> denotes st (snd kv) (snd kj))"

chapter \<open>Properties\<close>

section \<open>Decimal keys: printing and reading agree\<close>

lemma of_char_digit_char: "d < 10 \<Longrightarrow> (of_char (digit_char d) :: nat) = 48 + d"
  by (simp add: digit_char_def)

lemma digit_char_0: "digit_char 0 = CHR ''0''"
  by code_simp

lemma show_nat_zero: "show_nat 0 = ''0''"
  by code_simp

lemma digit_char_zero: "d < 10 \<Longrightarrow> digit_char d = CHR ''0'' \<longleftrightarrow> d = 0"
proof
  assume d: "d < 10" and e: "digit_char d = CHR ''0''"
  have "(of_char (digit_char d) :: nat) = 48" by (simp only: e) simp
  with of_char_digit_char[OF d] show "d = 0" by simp
next
  assume "d = 0"
  then show "digit_char d = CHR ''0''" by (simp only: digit_char_0)
qed

lemma is_digit_digit_char: "d < 10 \<Longrightarrow> is_digit (digit_char d)"
  by (simp add: is_digit_def of_char_digit_char)

lemma digit_val_digit_char: "d < 10 \<Longrightarrow> digit_val (digit_char d) = d"
  by (simp add: digit_val_def of_char_digit_char)

lemma show_nat_small: "n < 10 \<Longrightarrow> show_nat n = [digit_char n]"
  by (subst show_nat.simps) simp

lemma show_nat_big: "\<not> n < 10 \<Longrightarrow> show_nat n = show_nat (n div 10) @ [digit_char (n mod 10)]"
  by (subst show_nat.simps) simp

lemma show_nat_nonempty: "show_nat n \<noteq> []"
  by (cases "n < 10") (simp_all add: show_nat_small show_nat_big)

lemma show_nat_digits: "list_all is_digit (show_nat n)"
proof (induction n rule: show_nat.induct)
  case (1 n)
  show ?case
  proof (cases "n < 10")
    case True
    then show ?thesis by (simp add: show_nat_small is_digit_digit_char)
  next
    case False
    with 1 show ?thesis by (simp add: show_nat_big is_digit_digit_char)
  qed
qed

lemma read_nat_snoc: "read_nat (s @ [c]) = 10 * read_nat s + digit_val c"
  by (simp add: read_nat_def)

lemma read_show_nat: "read_nat (show_nat n) = n"
proof (induction n rule: show_nat.induct)
  case (1 n)
  show ?case
  proof (cases "n < 10")
    case True
    then show ?thesis
      by (simp add: show_nat_small read_nat_def digit_val_digit_char)
  next
    case False
    with 1 have "read_nat (show_nat (n div 10)) = n div 10" by simp
    with False show ?thesis
      by (simp add: show_nat_big read_nat_snoc digit_val_digit_char)
  qed
qed

lemma hd_show_nat: "0 < n \<Longrightarrow> hd (show_nat n) \<noteq> CHR ''0''"
proof (induction n rule: show_nat.induct)
  case (1 n)
  show ?case
  proof (cases "n < 10")
    case True
    with 1(2) show ?thesis
      by (simp add: show_nat_small digit_char_zero)
  next
    case False
    then have "0 < n div 10" by simp
    with 1 False have "hd (show_nat (n div 10)) \<noteq> CHR ''0''" by simp
    with False show ?thesis
      by (simp add: show_nat_big show_nat_nonempty)
  qed
qed

lemma array_index_zero: "array_index ''0'' = Some 0"
  by code_simp

lemma array_index_show_nat: "array_index (show_nat n) = Some n"
proof (cases "n = 0")
  case True
  then show ?thesis by (simp only: show_nat_zero array_index_zero)
next
  case False
  then show ?thesis
    by (simp add: array_index_def show_nat_nonempty show_nat_digits read_show_nat hd_show_nat)
qed

lemma show_nat_inj:
  assumes "show_nat a = show_nat b"
  shows "a = b"
proof -
  have "read_nat (show_nat a) = read_nat (show_nat b)" by (simp only: assms)
  then show ?thesis by (simp only: read_show_nat)
qed

lemma map_fst_rev_aux: "map fst (rev l) = rev (map fst l)"
  by (simp add: rev_map)

lemma lookup_append:
  "lookup (a @ b) k = (case lookup b k of Some v \<Rightarrow> Some v | None \<Rightarrow> lookup a k)"
  by (simp add: lookup_def map_add_def split: option.splits)

lemma lookup_None_iff: "lookup kvs k = None \<longleftrightarrow> k \<notin> fst ` set kvs"
  by (simp add: lookup_def map_of_eq_None_iff)

lemma lookup_index_list:
  assumes "i < n"
  shows "lookup (map (\<lambda>i. (show_nat i, f i)) [0..<n]) (show_nat i) = Some (f i)"
proof -
  let ?l = "map (\<lambda>i. (show_nat i, f i)) [0..<n]"
  have "map fst ?l = map show_nat [0..<n]" by (simp add: comp_def del: upt_Suc)
  moreover have "distinct (map show_nat [0..<n])"
    by (simp add: distinct_map inj_on_def del: upt_Suc) (blast dest: show_nat_inj)
  ultimately have "distinct (map fst ?l)" by (simp only:)
  then have d: "distinct (map fst (rev ?l))"
    by (simp only: map_fst_rev_aux distinct_rev)
  have "(show_nat i, f i) \<in> set (rev ?l)"
    using assms by (auto simp del: upt_Suc)
  from map_of_is_SomeI[OF d this] show ?thesis by (simp add: lookup_def)
qed

lemma own_props_lookup:
  assumes "k \<in> own_keys v"
  shows "lookup (own_props v) k = Some (prop_of v k)"
proof (cases v)
  case (JObj kvs)
  with assms have "lookup kvs k \<noteq> None" by (simp add: own_keys_def lookup_None_iff)
  with JObj show ?thesis by auto
next
  case (JArr xs)
  with assms obtain i where i: "i < length xs" "k = show_nat i"
    by (auto simp: own_keys_def simp del: upt_Suc)
  with JArr show ?thesis
    by (simp add: lookup_index_list array_index_show_nat del: upt_Suc)
next
  case (JStr s)
  with assms obtain i where i: "i < length s" "k = show_nat i"
    by (auto simp: own_keys_def simp del: upt_Suc)
  with JStr show ?thesis
    by (simp add: lookup_index_list array_index_show_nat del: upt_Suc)
qed (use assms in \<open>auto simp: own_keys_def\<close>)

section \<open>Merging a suite with an endpoint\<close>

lemma suite_names: "getAllTestSuiteNames = [''smoke'', ''load'', ''stress'', ''spike'', ''endurance'', ''soak'']"
  by code_simp

lemma endpoint_names: "getAllEndpoints = [''users-me'', ''client-configs'', ''health-check'', ''create-user'', ''update-user'', ''auth/signin'']"
  by code_simp

lemma registered_suite:
  assumes "name \<in> set getAllTestSuiteNames"
  shows "truthy (prop_of testSuites name) \<and> \<not> nullish (suite_config name)"
  using assms unfolding suite_names suite_config_def
  by (auto simp: testSuites_def lookup_def)

lemma prop_of_thresholds_snoc:
  "prop_of (JObj (kvs @ [(k, v)])) k = v"
  by (simp add: lookup_def)

lemma mergeConfigs_Inr:
  assumes "truthy (prop_of testSuites name)" "\<not> nullish (suite_config name)" "\<not> nullish endpoint"
  shows "mergeConfigs endpoint name =
     Inr (JObj (own_props (suite_config name) @ own_props (endpoint_override endpoint name) @
            [(''thresholds'', JObj (own_props (suite_thresholds name) @
                 own_props (prop_of (endpoint_override endpoint name) ''thresholds'')))]))"
  using assms
  by (simp add: mergeConfigs_def get_prop_def suite_config_def suite_thresholds_def
        endpoint_override_def Let_def)

lemma merged_keys:
  "own_keys (JObj (own_props a @ own_props b)) = own_keys a \<union> own_keys b"
  by (simp add: own_keys_def image_Un)

lemma merged_value_right:
  assumes "k \<in> own_keys b"
  shows "prop_of (JObj (own_props a @ own_props b)) k = prop_of b k"
  using own_props_lookup[OF assms] by (simp add: lookup_append)

lemma merged_value_left:
  assumes "k \<in> own_keys a" "k \<notin> own_keys b"
  shows "prop_of (JObj (own_props a @ own_props b)) k = prop_of a k"
proof -
  from assms(2) have "lookup (own_props b) k = None"
    by (simp add: lookup_None_iff own_keys_def)
  with own_props_lookup[OF assms(1)] show ?thesis by (simp add: lookup_append)
qed

lemma toString_not_suite: "''toString'' \<notin> set getAllTestSuiteNames"
  by (simp add: suite_names)

lemma mergeConfigs_unknown_suite:
  assumes "name \<notin> set getAllTestSuiteNames" "name \<notin> set object_prototype"
  shows "mergeConfigs endpoint name = Inl (Error (''Test suite '' @ quoted name @ '' not found''))"
proof -
  from assms have "prop_of testSuites name = JUndefined"
    unfolding suite_names by (simp add: testSuites_def lookup_def inherited_def)
  then show ?thesis by (simp add: mergeConfigs_def)
qed

text \<open>
  A name that is not registered never yields a configuration: the merge fails, with the
  not-found error or, for an inherited name, with a \<open>TypeError\<close>.
\<close>

lemma mergeConfigs_unregistered_fails:
  assumes "name \<notin> set getAllTestSuiteNames"
  shows "\<exists>e. mergeConfigs endpoint name = Inl e"
proof (cases "name \<in> set object_prototype")
  case False
  from mergeConfigs_unknown_suite[OF assms False] show ?thesis by blast
next
  case True
  with assms have b: "prop_of testSuites name = JBuiltin name"
    unfolding suite_names by (simp add: testSuites_def lookup_def inherited_def)
  have c: "prop_of (JBuiltin name) ''config'' = JUndefined"
    by (simp add: function_prototype_def array_prototype_def object_prototype_def)
  show ?thesis
    unfolding mergeConfigs_def Let_def b c
    by (simp add: get_prop_def del: prop_of.simps)
qed

lemma entries_endpoints: "object_entries endpoints = own_props endpoints"
  by code_simp

lemma shipped_testConfig:
  assumes "ep \<in> snd ` set (object_entries endpoints)"
  shows "\<exists>a b. prop_of ep ''testConfig'' = JObj [(''loadTest'', a), (''smokeTest'', b)]"
  using assms unfolding entries_endpoints
  by (auto simp: endpoints_def lookup_def)

lemma shipped_no_override:
  assumes "ep \<in> snd ` set (object_entries endpoints)" "name \<in> set getAllTestSuiteNames"
  shows "prop_of (prop_of ep ''testConfig'') name = JUndefined"
proof -
  from shipped_testConfig[OF assms(1)] obtain a b
    where tc: "prop_of ep ''testConfig'' = JObj [(''loadTest'', a), (''smokeTest'', b)]" by blast
  from assms(2) show ?thesis unfolding tc suite_names
    by (auto simp: lookup_def inherited_def object_prototype_def)
qed

lemma shipped_not_nullish:
  assumes "ep \<in> snd ` set (object_entries endpoints)"
  shows "\<not> nullish ep"
  using assms unfolding entries_endpoints by (auto simp: endpoints_def)

lemma suite_copy_same:
  assumes "name \<in> set getAllTestSuiteNames"
  shows "same_object (JObj (own_props (suite_config name) @
            [(''thresholds'', JObj (own_props (suite_thresholds name)))])) (suite_config name)"
proof -
  have "\<forall>n \<in> set getAllTestSuiteNames.
     same_object (JObj (own_props (suite_config n) @
            [(''thresholds'', JObj (own_props (suite_thresholds n)))])) (suite_config n)"
    by code_simp
  with assms show ?thesis by blast
qed

lemma suite_thresholds_object:
  assumes "name \<in> set getAllTestSuiteNames"
  shows "JObj (own_props (suite_thresholds name)) = suite_thresholds name"
  using assms unfolding suite_names suite_thresholds_def suite_config_def
  by (auto simp: testSuites_def lookup_def)

text \<open>
  C1. For a registered suite name and an endpoint object, \<open>mergeConfigs\<close> returns a
  configuration whose \<open>thresholds\<close> has exactly the keys of the suite's thresholds
  together with the keys of the thresholds of the endpoint's own configuration for that
  suite; under a key of the endpoint's thresholds the value is the endpoint's, under any
  other key it is the suite's.
\<close>

theorem mergeConfigs_thresholds_union:
  assumes "testSuiteName \<in> set getAllTestSuiteNames" and "\<not> nullish endpoint"
  shows "\<exists>cfg. mergeConfigs endpoint testSuiteName = Inr cfg \<and>
           own_keys (prop_of cfg ''thresholds'') =
             own_keys (suite_thresholds testSuiteName) \<union>
             own_keys (prop_of (endpoint_override endpoint testSuiteName) ''thresholds'') \<and>
           (\<forall>k \<in> own_keys (prop_of (endpoint_override endpoint testSuiteName) ''thresholds'').
              prop_of (prop_of cfg ''thresholds'') k =
              prop_of (prop_of (endpoint_override endpoint testSuiteName) ''thresholds'') k) \<and>
           (\<forall>k \<in> own_keys (suite_thresholds testSuiteName) -
                  own_keys (prop_of (endpoint_override endpoint testSuiteName) ''thresholds'').
              prop_of (prop_of cfg ''thresholds'') k = prop_of (suite_thresholds testSuiteName) k)"
proof -
  let ?st = "suite_thresholds testSuiteName"
  let ?ot = "prop_of (endpoint_override endpoint testSuiteName) ''thresholds''"
  let ?t = "JObj (own_props ?st @ own_props ?ot)"
  let ?cfg = "JObj (own_props (suite_config testSuiteName) @
                own_props (endpoint_override endpoint testSuiteName) @ [(''thresholds'', ?t)])"
  from registered_suite[OF assms(1)] assms(2)
  have m: "mergeConfigs endpoint testSuiteName = Inr ?cfg"
    by (intro mergeConfigs_Inr) simp_all
  have t: "prop_of ?cfg ''thresholds'' = ?t"
    using prop_of_thresholds_snoc[of "own_props (suite_config testSuiteName) @
                own_props (endpoint_override endpoint testSuiteName)"] by simp
  have k: "own_keys ?t = own_keys ?st \<union> own_keys ?ot"
    by (rule merged_keys)
  have r: "\<forall>k \<in> own_keys ?ot. prop_of ?t k = prop_of ?ot k"
    using merged_value_right by blast
  have l: "\<forall>k \<in> own_keys ?st - own_keys ?ot. prop_of ?t k = prop_of ?st k"
    using merged_value_left by blast
  show ?thesis
  proof (intro exI conjI)
    show "mergeConfigs endpoint testSuiteName = Inr ?cfg" by (rule m)
    show "own_keys (prop_of ?cfg ''thresholds'') = own_keys ?st \<union> own_keys ?ot"
      unfolding t by (rule k)
    show "\<forall>k \<in> own_keys ?ot. prop_of (prop_of ?cfg ''thresholds'') k = prop_of ?ot k"
      unfolding t by (rule r)
    show "\<forall>k \<in> own_keys ?st - own_keys ?ot.
            prop_of (prop_of ?cfg ''thresholds'') k = prop_of ?st k"
      unfolding t by (rule l)
  qed
qed

text \<open>
  An endpoint with its own \<open>load\<close> configuration: it tightens \<open>http_req_duration\<close>,
  adds \<open>checks\<close>, and leaves \<open>http_req_failed\<close> to the suite.
\<close>

theorem mergeConfigs_thresholds_union_witness:
  "''load'' \<in> set getAllTestSuiteNames \<and>
   (\<exists>cfg. mergeConfigs
      (JObj [(''testConfig'', JObj [(''load'', JObj [(''vus'', JNum 100),
         (''thresholds'', JObj [(''http_req_duration'', JArr [JStr ''p(95)<100'']),
                                (''checks'', JArr [JStr ''rate>0.99''])])])])]) ''load'' = Inr cfg \<and>
      own_keys (prop_of cfg ''thresholds'') = {''http_req_duration'', ''http_req_failed'', ''checks''} \<and>
      prop_of (prop_of cfg ''thresholds'') ''http_req_duration'' = JArr [JStr ''p(95)<100''] \<and>
      prop_of (prop_of cfg ''thresholds'') ''http_req_failed'' = JArr [JStr ''rate<0.01''])"
proof -
  let ?ep = "JObj [(''testConfig'', JObj [(''load'', JObj [(''vus'', JNum 100),
         (''thresholds'', JObj [(''http_req_duration'', JArr [JStr ''p(95)<100'']),
                                (''checks'', JArr [JStr ''rate>0.99''])])])])]"
  have h1: "''load'' \<in> set getAllTestSuiteNames" by (simp add: suite_names)
  have h2: "\<not> nullish ?ep" by simp
  have ot: "prop_of (endpoint_override ?ep ''load'') ''thresholds'' =
      JObj [(''http_req_duration'', JArr [JStr ''p(95)<100'']), (''checks'', JArr [JStr ''rate>0.99''])]"
    by (simp add: endpoint_override_def lookup_def)
  have st: "suite_thresholds ''load'' =
      JObj [(''http_req_duration'', JArr [JStr ''p(95)<500'']), (''http_req_failed'', JArr [JStr ''rate<0.01''])]"
    by (simp add: suite_thresholds_def suite_config_def testSuites_def lookup_def)
  from mergeConfigs_thresholds_union[OF h1 h2] obtain cfg where
    m: "mergeConfigs ?ep ''load'' = Inr cfg" and
    k: "own_keys (prop_of cfg ''thresholds'') = own_keys (suite_thresholds ''load'') \<union>
          own_keys (prop_of (endpoint_override ?ep ''load'') ''thresholds'')" and
    r: "\<forall>k \<in> own_keys (prop_of (endpoint_override ?ep ''load'') ''thresholds'').
          prop_of (prop_of cfg ''thresholds'') k =
          prop_of (prop_of (endpoint_override ?ep ''load'') ''thresholds'') k" and
    l: "\<forall>k \<in> own_keys (suite_thresholds ''load'') -
              own_keys (prop_of (endpoint_override ?ep ''load'') ''thresholds'').
          prop_of (prop_of cfg ''thresholds'') k = prop_of (suite_thresholds ''load'') k"
    by blast
  have k': "own_keys (prop_of cfg ''thresholds'') = {''http_req_duration'', ''http_req_failed'', ''checks''}"
    unfolding k ot st by (auto simp: own_keys_def)
  have r': "prop_of (prop_of cfg ''thresholds'') ''http_req_duration'' = JArr [JStr ''p(95)<100'']"
    using r unfolding ot by (simp add: own_keys_def lookup_def)
  have l': "prop_of (prop_of cfg ''thresholds'') ''http_req_failed'' = JArr [JStr ''rate<0.01'']"
    using l unfolding ot st by (simp add: own_keys_def lookup_def)
  from h1 m k' r' l' show ?thesis by blast
qed

text \<open>
  C2. A suite name that is not registered but is inherited by every object, such as
  \<open>toString\<close>, passes the guard of \<open>mergeConfigs\<close>: the failure is then the
  \<open>TypeError\<close> of reading \<open>thresholds\<close> from a missing \<open>config\<close>, not the
  "Test suite not found" error, whatever the endpoint is.
\<close>

theorem mergeConfigs_inherited_name:
  "''toString'' \<notin> set getAllTestSuiteNames \<and> mergeConfigs endpoint ''toString'' = Inl TypeError"
proof -
  have b: "prop_of testSuites ''toString'' = JBuiltin ''toString''"
    by (simp add: testSuites_def lookup_def inherited_def object_prototype_def)
  have "mergeConfigs endpoint ''toString'' = Inl TypeError"
    by (simp add: mergeConfigs_def b get_prop_def Let_def function_prototype_def
          array_prototype_def object_prototype_def)
  with toString_not_suite show ?thesis by simp
qed

text \<open>
  C9. For an endpoint of the shipped registry and a registered suite name, the endpoint has
  nothing under the suite name (the keys of its \<open>testConfig\<close> are not suite names), and
  \<open>mergeConfigs\<close> returns the suite's own configuration, with the suite's thresholds.
\<close>

theorem mergeConfigs_shipped_is_suite_config:
  assumes "ep \<in> snd ` set (object_entries endpoints)" and "name \<in> set getAllTestSuiteNames"
  shows "own_keys (prop_of ep ''testConfig'') \<inter> set getAllTestSuiteNames = {} \<and>
         prop_of (prop_of ep ''testConfig'') name = JUndefined \<and>
         (\<exists>cfg. mergeConfigs ep name = Inr cfg \<and> same_object cfg (suite_config name) \<and>
                prop_of cfg ''thresholds'' = suite_thresholds name)"
proof -
  from shipped_testConfig[OF assms(1)] obtain a b
    where tc: "prop_of ep ''testConfig'' = JObj [(''loadTest'', a), (''smokeTest'', b)]" by blast
  have keys: "own_keys (prop_of ep ''testConfig'') \<inter> set getAllTestSuiteNames = {}"
    unfolding tc suite_names by (simp add: own_keys_def)
  have none: "prop_of (prop_of ep ''testConfig'') name = JUndefined"
    by (rule shipped_no_override[OF assms])
  then have ov: "endpoint_override ep name = JObj []"
    by (simp add: endpoint_override_def)
  have e: "own_props (prop_of (JObj []) ''thresholds'') = []"
    by (simp add: lookup_def inherited_def object_prototype_def)
  let ?cfg = "JObj (own_props (suite_config name) @
                [(''thresholds'', JObj (own_props (suite_thresholds name)))])"
  from registered_suite[OF assms(2)] shipped_not_nullish[OF assms(1)]
  have "mergeConfigs ep name =
     Inr (JObj (own_props (suite_config name) @ own_props (endpoint_override ep name) @
            [(''thresholds'', JObj (own_props (suite_thresholds name) @
                 own_props (prop_of (endpoint_override ep name) ''thresholds'')))]))"
    by (intro mergeConfigs_Inr) simp_all
  then have m: "mergeConfigs ep name = Inr ?cfg"
    by (simp only: ov e own_props.simps append_Nil append_Nil2)
  have t: "prop_of ?cfg ''thresholds'' = suite_thresholds name"
    by (simp only: prop_of_thresholds_snoc suite_thresholds_object[OF assms(2)])
  from keys none m suite_copy_same[OF assms(2)] t show ?thesis by blast
qed

theorem mergeConfigs_shipped_is_suite_config_witness:
  "prop_of endpoints ''health-check'' \<in> snd ` set (object_entries endpoints) \<and>
   ''smoke'' \<in> set getAllTestSuiteNames \<and>
   (\<exists>cfg. mergeConfigs (prop_of endpoints ''health-check'') ''smoke'' = Inr cfg \<and>
          same_object cfg (JObj [(''vus'', JNum 1), (''duration'', JStr ''10s''),
             (''thresholds'', JObj [(''http_req_failed'', JArr [JStr ''rate<0.01''])])]))"
proof -
  have h1: "prop_of endpoints ''health-check'' \<in> snd ` set (object_entries endpoints)"
    unfolding entries_endpoints by (simp add: endpoints_def lookup_def)
  have h2: "''smoke'' \<in> set getAllTestSuiteNames" by (simp add: suite_names)
  have sc: "suite_config ''smoke'' = JObj [(''vus'', JNum 1), (''duration'', JStr ''10s''),
             (''thresholds'', JObj [(''http_req_failed'', JArr [JStr ''rate<0.01''])])]"
    by (simp add: suite_config_def testSuites_def lookup_def)
  from mergeConfigs_shipped_is_suite_config[OF h1 h2] h1 h2 show ?thesis
    unfolding sc by blast
qed

section \<open>Planning a batch\<close>

lemma batch_names: "object_keys (batchConfig E) = [''smoke'', ''getEndpointsLoad'', ''postEndpointsStress'', ''custom'']"
  unfolding batchConfig_def by code_simp



lemma batchKey_plan: "batchKey (E(''BATCH_CONFIG'' \<mapsto> name)) = (if name = [] then ''smoke'' else name)"
  by (simp add: batchKey_def env_get_def or_else_def)

lemma available: "join '', '' [''smoke'', ''getEndpointsLoad'', ''postEndpointsStress'', ''custom''] =
   ''smoke, getEndpointsLoad, postEndpointsStress, custom''"
  by simp














text \<open>
  C3, as stated: the table of batches has no entry \<open>smoke-all\<close>; with that name the
  lookup fails.
\<close>

theorem plan_smoke_all_counterexample:
  "plan ''smoke-all'' Map.empty =
     Inl (Error (''Batch configuration '' @ quoted ''smoke-all'' @
                 '' not found. Available: smoke, getEndpointsLoad, postEndpointsStress, custom''))"
proof -
  have "prop_of (batchConfig (Map.empty(''BATCH_CONFIG'' \<mapsto> ''smoke-all''))) ''smoke-all'' = JUndefined"
    by (simp add: batchConfig_def lookup_def inherited_def object_prototype_def)
  then show ?thesis
    by (simp add: plan_def batch_def batchKey_plan batch_names Let_def)
qed

text \<open>
  C3, amended. The batch that covers all endpoints is named \<open>smoke\<close>. Whatever the
  environment, planning it gives the keys of the endpoint registry, each once, in the
  order of \<open>Object.keys\<close>, with the suite \<open>smoke\<close>, sequential execution and a delay
  of 5 seconds.
\<close>

theorem plan_smoke:
  "\<exists>b. plan ''smoke'' E = Inr b \<and>
        prop_of b ''endpoints'' = JArr (map JStr getAllEndpoints) \<and>
        getAllEndpoints = object_keys endpoints \<and>
        set getAllEndpoints = own_keys endpoints \<and>
        distinct getAllEndpoints \<and>
        getAllEndpoints = [''users-me'', ''client-configs'', ''health-check'', ''create-user'',
                           ''update-user'', ''auth/signin''] \<and>
        prop_of b ''testSuite'' = JStr ''smoke'' \<and>
        prop_of b ''parallel'' = JBool False \<and>
        prop_of b ''delayBetweenEndpoints'' = JNum 5"
proof -
  let ?b = "JObj [
        (''name'', JStr ''Smoke Test All Endpoints''),
        (''description'', JStr ''Quick validation of all endpoints''),
        (''endpoints'', JArr (map JStr getAllEndpoints)),
        (''testSuite'', JStr ''smoke''),
        (''parallel'', JBool False),
        (''delayBetweenEndpoints'', JNum 5)]"
  have p: "plan ''smoke'' E = Inr ?b"
    by (simp add: plan_def batch_def batchKey_plan batchConfig_def lookup_def Let_def)
  have k: "getAllEndpoints = map fst (own_props endpoints)"
    unfolding endpoint_names by (simp add: endpoints_def)
  have s: "set getAllEndpoints = own_keys endpoints"
    unfolding k own_keys_def by simp
  have d: "distinct getAllEndpoints" unfolding endpoint_names by simp
  show ?thesis
    by (intro exI[of _ ?b] conjI p s d endpoint_names) (simp_all add: lookup_def getAllEndpoints_def)
qed






section \<open>Running a batch\<close>





















section \<open>Authentication\<close>










section \<open>Building a URL\<close>

lemma entries1: "object_entries (JObj [(''id'', JStr v)]) = [(''id'', JStr v)]"
  by (simp add: object_entries_def object_keys_def array_index_def is_digit_def lookup_def)

lemma expand_plain: "CHR ''$'' \<notin> set v \<Longrightarrow> expand pre m post v = v"
  by (induction pre m post v rule: expand.induct) auto

lemma update_user_url:
  "js_plus (prop_of (prop_of endpoints ''update-user'') ''baseUrl'')
           (prop_of (prop_of endpoints ''update-user'') ''path'') =
   JStr ''https://dev-api.acexr.com/platform-services/v2/users/{id}''"
  by (simp add: endpoints_def lookup_def js_plus_def)

text \<open>
  For a value of \<open>id\<close> without a dollar sign, \<open>buildUrl\<close> puts the value in the place
  of \<open>{id}\<close>, as the substitution of the specification does.
\<close>

lemma buildUrl_plain_id:
  assumes "CHR ''$'' \<notin> set v"
  shows "buildUrl ''update-user'' (JObj [(''id'', JStr v)]) =
           Inr (JStr (''https://dev-api.acexr.com/platform-services/v2/users/'' @ v)) \<and>
         ''https://dev-api.acexr.com'' @
           fill_template [''id'' \<mapsto> v] ''/platform-services/v2/users/{id}'' =
         ''https://dev-api.acexr.com/platform-services/v2/users/'' @ v"
proof -
  have t: "truthy (prop_of endpoints ''update-user'')" by (simp add: endpoints_def lookup_def)
  have f: "find_sub ''{id}'' ''https://dev-api.acexr.com/platform-services/v2/users/{id}'' =
           Some (''https://dev-api.acexr.com/platform-services/v2/users/'', [])"
    by simp
  have r: "replace_first ''https://dev-api.acexr.com/platform-services/v2/users/{id}'' ''{id}'' v =
           ''https://dev-api.acexr.com/platform-services/v2/users/'' @ v"
    unfolding replace_first_def f by (simp add: expand_plain[OF assms])
  have b: "buildUrl ''update-user'' (JObj [(''id'', JStr v)]) =
           Inr (JStr (''https://dev-api.acexr.com/platform-services/v2/users/'' @ v))"
    using t unfolding buildUrl_def Let_def update_user_url
    by (simp add: entries1 replace_param_def r del: prop_of.simps)
  have s: "fill_template [''id'' \<mapsto> v] ''/platform-services/v2/users/{id}'' =
           ''/platform-services/v2/users/'' @ v"
    by (simp add: fill_template_def)
  from b s show ?thesis by simp
qed

text \<open>
  C6. The endpoint \<open>update-user\<close> has the path \<open>/platform-services/v2/users/{id}\<close>.
  With the parameter \<open>id\<close> set to \<open>$&\<close>, the placeholder is matched by a key of the
  map, but the URL that \<open>buildUrl\<close> returns still has \<open>{id}\<close> in it: \<open>replace\<close>
  reads \<open>$&\<close> as "the matched text". Replacing the placeholder by the map's value
  would give \<open>.../users/$&\<close>.
\<close>

theorem buildUrl_dollar_value:
  "buildUrl ''update-user'' (JObj [(''id'', JStr ''$&'')]) =
     Inr (JStr ''https://dev-api.acexr.com/platform-services/v2/users/{id}'') \<and>
   ''https://dev-api.acexr.com'' @
     fill_template [''id'' \<mapsto> ''$&''] ''/platform-services/v2/users/{id}'' =
     ''https://dev-api.acexr.com/platform-services/v2/users/$&''"
proof -
  have e: "prop_of endpoints ''update-user'' = JObj [
        (''name'', JStr ''Update User''),
        (''method'', JStr ''PATCH''),
        (''path'', JStr ''/platform-services/v2/users/{id}''),
        (''baseUrl'', JStr ''https://dev-api.acexr.com''),
        (''requiresAuth'', JBool True),
        (''testConfig'', prop_of (prop_of endpoints ''update-user'') ''testConfig''),
        (''validation'', prop_of (prop_of endpoints ''update-user'') ''validation'')]"
    by (simp add: endpoints_def lookup_def)
  have u: "js_plus (prop_of (prop_of endpoints ''update-user'') ''baseUrl'')
                   (prop_of (prop_of endpoints ''update-user'') ''path'') =
           JStr ''https://dev-api.acexr.com/platform-services/v2/users/{id}''"
    by (subst (1 2) e) (simp add: lookup_def js_plus_def)
  have t: "truthy (prop_of endpoints ''update-user'')" by (subst e) simp
  have r: "replace_first ''https://dev-api.acexr.com/platform-services/v2/users/{id}'' ''{id}'' ''$&'' =
           ''https://dev-api.acexr.com/platform-services/v2/users/{id}''"
    by (simp add: replace_first_def)
  have b: "buildUrl ''update-user'' (JObj [(''id'', JStr ''$&'')]) =
     Inr (JStr ''https://dev-api.acexr.com/platform-services/v2/users/{id}'')"
    using t by (simp add: buildUrl_def Let_def u entries1 replace_param_def r del: prop_of.simps)
  have f: "fill_template [''id'' \<mapsto> ''$&''] ''/platform-services/v2/users/{id}'' =
     ''/platform-services/v2/users/$&''"
    by (simp add: fill_template_def)
  from b f show ?thesis by simp
qed

section \<open>The two models of mergeConfigs agree\<close>

lemma denotes_truthy: "denotes st v j \<Longrightarrow> h_truthy v = truthy j"
  by (induction rule: denotes.induct) simp_all

lemma denotes_nullish: "denotes st v j \<Longrightarrow> h_nullish v = nullish j"
  by (induction rule: denotes.induct) simp_all

lemma denotes_inherited: "denotes st (h_inherited names k) (inherited names k)"
  by (simp add: h_inherited_def inherited_def denotes.intros)

lemma entries_lookup:
  assumes "entries_denote st kvs jkvs"
  shows "(case h_lookup kvs k of
            None \<Rightarrow> lookup jkvs k = None
          | Some v \<Rightarrow> (\<exists>j. lookup jkvs k = Some j \<and> denotes st v j))"
proof -
  from assms have "entries_denote st (rev kvs) (rev jkvs)" by (simp add: list_all2_rev)
  then have "(case map_of (rev kvs) k of
            None \<Rightarrow> map_of (rev jkvs) k = None
          | Some v \<Rightarrow> (\<exists>j. map_of (rev jkvs) k = Some j \<and> denotes st v j))"
    by (induction rule: list_all2_induct) (auto split: option.splits)
  then show ?thesis unfolding h_lookup_def lookup_def .
qed

lemma denotes_prop:
  assumes "denotes st v j"
  shows "denotes st (h_prop st v k) (prop_of j k)"
  using assms
proof (cases rule: denotes.cases)
  case (d_obj a kvs jkvs)
  from entries_lookup[OF d_obj(4), of k] d_obj(1,2,3) show ?thesis
    by (auto simp: denotes_inherited split: option.splits)
next
  case (d_arr a xs js)
  from d_arr(4) have l: "length xs = length js" by (rule list_all2_lengthD)
  from d_arr(4) have n: "\<And>i. i < length xs \<Longrightarrow> denotes st (xs ! i) (js ! i)"
    by (simp add: list_all2_nthD)
  from d_arr(1,2,3) l n show ?thesis
    by (auto simp: denotes_inherited denotes.intros split: option.splits)
qed (auto simp: denotes_inherited denotes.intros split: option.splits)

lemma denotes_own:
  assumes "denotes st v j"
  shows "entries_denote st (h_own st v) (own_props j)"
  using assms
proof (cases rule: denotes.cases)
  case (d_arr a xs js)
  from d_arr(4) have l: "length xs = length js" by (rule list_all2_lengthD)
  from d_arr(4) have n: "\<And>i. i < length xs \<Longrightarrow> denotes st (xs ! i) (js ! i)"
    by (simp add: list_all2_nthD)
  from d_arr(1,2,3) l n show ?thesis
    by (simp add: list_all2_conv_all_nth del: upt_Suc)
next
  case (d_str s)
  then show ?thesis by (simp add: list_all2_conv_all_nth denotes.intros del: upt_Suc)
qed simp_all

lemma denotes_append:
  assumes "denotes st v j"
  shows "denotes (st @ ext) v j"
  using assms
proof (induction rule: denotes.induct)
  case (d_obj st a kvs jkvs)
  from d_obj(1) have "cell_at (st @ ext) a = Some (Obj kvs)"
    by (auto simp: cell_at_def nth_append split: if_splits)
  moreover from d_obj(2) have "entries_denote (st @ ext) kvs jkvs"
    by (rule list_all2_mono) simp_all
  ultimately show ?case by (rule denotes.d_obj)
next
  case (d_arr st a xs js)
  from d_arr(1) have "cell_at (st @ ext) a = Some (Arr xs)"
    by (auto simp: cell_at_def nth_append split: if_splits)
  moreover from d_arr(2) have "list_all2 (denotes (st @ ext)) xs js"
    by (rule list_all2_mono) simp_all
  ultimately show ?case by (rule denotes.d_arr)
qed (simp_all add: denotes.intros)

lemma entries_append:
  "entries_denote st kvs jkvs \<Longrightarrow> entries_denote (st @ ext) kvs jkvs"
  by (erule list_all2_mono) (auto intro: denotes_append)

lemma denotes_alloc:
  assumes "entries_denote st kvs jkvs"
  shows "denotes (st @ [Obj kvs]) (HRef (length st)) (JObj jkvs)"
proof -
  have "cell_at (st @ [Obj kvs]) (length st) = Some (Obj kvs)" by (simp add: cell_at_def)
  moreover from assms have "entries_denote (st @ [Obj kvs]) kvs jkvs" by (rule entries_append)
  ultimately show ?thesis by (rule denotes.d_obj)
qed

lemma merge_literals:
  assumes c: "denotes st1 config jconfig" and e: "denotes st1 ec jec"
  shows "denotes
     (st1 @ [Obj (h_own st1 (h_prop st1 config ''thresholds'') @ h_own st1 (h_prop st1 ec ''thresholds'')),
             Obj (h_own (st1 @ [Obj (h_own st1 (h_prop st1 config ''thresholds'') @
                                      h_own st1 (h_prop st1 ec ''thresholds''))]) config @
                  h_own (st1 @ [Obj (h_own st1 (h_prop st1 config ''thresholds'') @
                                      h_own st1 (h_prop st1 ec ''thresholds''))]) ec @
                  [(''thresholds'', HRef (length st1))])])
     (HRef (Suc (length st1)))
     (JObj (own_props jconfig @ own_props jec @
            [(''thresholds'', JObj (own_props (prop_of jconfig ''thresholds'') @
                                    own_props (prop_of jec ''thresholds'')))]))"
proof -
  let ?T = "h_own st1 (h_prop st1 config ''thresholds'') @ h_own st1 (h_prop st1 ec ''thresholds'')"
  let ?JT = "own_props (prop_of jconfig ''thresholds'') @ own_props (prop_of jec ''thresholds'')"
  let ?st2 = "st1 @ [Obj ?T]"
  have t: "entries_denote st1 ?T ?JT"
    by (intro list_all2_appendI denotes_own denotes_prop c e)
  have th: "denotes ?st2 (HRef (length st1)) (JObj ?JT)" by (rule denotes_alloc[OF t])
  have c2: "entries_denote ?st2 (h_own ?st2 config) (own_props jconfig)"
    by (rule denotes_own[OF denotes_append[OF c]])
  have e2: "entries_denote ?st2 (h_own ?st2 ec) (own_props jec)"
    by (rule denotes_own[OF denotes_append[OF e]])
  have r: "entries_denote ?st2 (h_own ?st2 config @ h_own ?st2 ec @ [(''thresholds'', HRef (length st1))])
             (own_props jconfig @ own_props jec @ [(''thresholds'', JObj ?JT)])"
    using c2 e2 th by (intro list_all2_appendI) simp_all
  from denotes_alloc[OF r] show ?thesis by simp
qed

text \<open>
  When the store holds the suite registry at \<open>suites\<close> and the endpoint denotes
  \<open>ep\<close>, the merge on the store fails exactly as \<open>mergeConfigs\<close> does, and otherwise
  returns a reference that denotes the configuration \<open>mergeConfigs\<close> returns.
\<close>

lemma mergeConfigs_st_refines:
  assumes "denotes st (HRef suites) testSuites" and "denotes st endpoint ep"
  shows "case mergeConfigs_st st suites endpoint name of
           Inl e \<Rightarrow> mergeConfigs ep name = Inl e
         | Inr (r, st') \<Rightarrow> (\<exists>cfg. mergeConfigs ep name = Inr cfg \<and> denotes st' r cfg)"
proof -
  define ts where "ts = h_prop st (HRef suites) name"
  define jts where "jts = prop_of testSuites name"
  define own where "own = h_prop st (h_prop st endpoint ''testConfig'') name"
  define jown where "jown = prop_of (prop_of ep ''testConfig'') name"
  have dts: "denotes st ts jts" unfolding ts_def jts_def by (rule denotes_prop[OF assms(1)])
  have down: "denotes st own jown" unfolding own_def jown_def
    by (intro denotes_prop assms(2))
  note tr = denotes_truthy[OF dts] denotes_truthy[OF down] denotes_nullish[OF assms(2)]
  note folds = ts_def[symmetric] jts_def[symmetric] own_def[symmetric] jown_def[symmetric]
  show ?thesis
  proof (cases "h_truthy own")
    case True
    define config where "config = h_prop st ts ''config''"
    define jconfig where "jconfig = prop_of jts ''config''"
    have dc: "denotes st config jconfig" unfolding config_def jconfig_def by (rule denotes_prop[OF dts])
    note lit = merge_literals[OF dc down]
    from True tr denotes_nullish[OF dc] lit show ?thesis
      unfolding mergeConfigs_st_def mergeConfigs_def Let_def alloc_def get_prop_def
        ts_def[symmetric] jts_def[symmetric] own_def[symmetric] jown_def[symmetric]
      by (simp add: folds config_def[symmetric] jconfig_def[symmetric]
            del: h_prop.simps prop_of.simps h_own.simps own_props.simps)
  next
    case False
    let ?st1 = "st @ [Obj []]"
    define config where "config = h_prop ?st1 ts ''config''"
    define jconfig where "jconfig = prop_of jts ''config''"
    have dc: "denotes ?st1 config jconfig" unfolding config_def jconfig_def
      by (rule denotes_prop[OF denotes_append[OF dts]])
    have de: "denotes ?st1 (HRef (length st)) (JObj [])"
      by (rule denotes_alloc) simp
    note lit = merge_literals[OF dc de]
    from False tr denotes_nullish[OF dc] lit show ?thesis
      unfolding mergeConfigs_st_def mergeConfigs_def Let_def alloc_def get_prop_def
        ts_def[symmetric] jts_def[symmetric] own_def[symmetric] jown_def[symmetric]
      by (simp add: folds config_def[symmetric] jconfig_def[symmetric]
            del: h_prop.simps prop_of.simps h_own.simps own_props.simps)
  qed
qed

section \<open>mergeConfigs does not write\<close>

lemma cell_at_append: "a < length st \<Longrightarrow> cell_at (st @ ext) a = cell_at st a"
  by (simp add: cell_at_def nth_append)

lemma h_prop_append: "valid st v \<Longrightarrow> h_prop (st @ ext) v k = h_prop st v k"
  by (cases v) (simp_all add: cell_at_append)

lemma h_own_append: "valid st v \<Longrightarrow> h_own (st @ ext) v = h_own st v"
  by (cases v) (simp_all add: cell_at_append)

lemma valid_append: "valid st v \<Longrightarrow> valid (st @ ext) v"
  by (cases v) simp_all

lemma valid_cell_prop:
  assumes "\<forall>v \<in> set (cell_values c). valid st v"
  shows "valid st (cell_prop c k)"
proof (cases c)
  case (Obj kvs)
  show ?thesis
  proof (cases "h_lookup kvs k")
    case None
    with Obj show ?thesis by (simp add: h_inherited_def)
  next
    case (Some v)
    then have "(k, v) \<in> set (rev kvs)" unfolding h_lookup_def by (rule map_of_SomeD)
    then have "v \<in> set (cell_values c)" using Obj by force
    with assms have "valid st v" by blast
    with Some Obj show ?thesis by simp
  qed
next
  case (Arr xs)
  with assms show ?thesis
    by (auto simp: h_inherited_def split: option.splits)
qed

lemma valid_h_prop:
  assumes "closed st" "valid st v"
  shows "valid st (h_prop st v k)"
proof (cases v)
  case (HRef a)
  with assms(2) have "st ! a \<in> set st" by simp
  with assms(1) have "\<forall>v \<in> set (cell_values (st ! a)). valid st v" by (simp add: closed_def)
  from valid_cell_prop[OF this] HRef assms(2) show ?thesis by (simp add: cell_at_def)
qed (auto simp: h_inherited_def split: option.splits)

lemma fresh_empty:
  "h_own (st @ [Obj []]) (HRef (length st)) = []"
  "h_own (st @ [Obj []]) (h_prop (st @ [Obj []]) (HRef (length st)) ''thresholds'') = []"
  by (simp_all add: cell_at_def h_lookup_def h_inherited_def object_prototype_def)

lemma merge_char:
  assumes "valid st (h_prop st (HRef suites) name)"
    and "valid st (h_prop st (h_prop st (HRef suites) name) ''config'')"
    and "valid st (h_prop st (h_prop st endpoint ''testConfig'') name)"
    and "valid st (h_prop st (h_prop st (h_prop st (HRef suites) name) ''config'') ''thresholds'')"
  shows "mergeConfigs_st st suites endpoint name =
     (case merge_fails st suites endpoint name of
        Some e \<Rightarrow> Inl e
      | None \<Rightarrow> Inr (HRef (length st + length (merged_cells st suites endpoint name (length st)) - 1),
                     st @ merged_cells st suites endpoint name (length st)))"
proof -
  define ts where "ts = h_prop st (HRef suites) name"
  define own where "own = h_prop st (h_prop st endpoint ''testConfig'') name"
  define config where "config = h_prop st ts ''config''"
  note v = assms[folded ts_def own_def, folded config_def]
  have c: "\<And>ext. h_prop (st @ ext) ts ''config'' = config"
    unfolding config_def by (rule h_prop_append[OF v(1)])
  have t: "\<And>ext. h_prop (st @ ext) config ''thresholds'' = h_prop st config ''thresholds''"
    by (rule h_prop_append[OF v(2)])
  have oc: "\<And>ext. h_own (st @ ext) config = h_own st config"
    by (rule h_own_append[OF v(2)])
  have oo: "\<And>ext. h_own (st @ ext) own = h_own st own"
    by (rule h_own_append[OF v(3)])
  have po: "\<And>ext. h_prop (st @ ext) own ''thresholds'' = h_prop st own ''thresholds''"
    by (rule h_prop_append[OF v(3)])
  have c0: "h_prop st ts ''config'' = config" by (simp add: config_def)
  show ?thesis
  proof (cases "h_truthy own")
    case True
    then show ?thesis
      unfolding mergeConfigs_st_def merge_fails_def merged_cells_def alloc_def Let_def
        ts_def[symmetric] own_def[symmetric] c0
      by (simp add: c0 oc oo del: h_prop.simps h_own.simps)
  next
    case False
    have f1: "h_own ((st @ [Obj []]) @ ext) (HRef (length st)) = []" for ext
      by (simp add: cell_at_def nth_append)
    have f2: "h_own (st @ [Obj []]) (h_prop (st @ [Obj []]) (HRef (length st)) ''thresholds'') = []"
      by (rule fresh_empty(2))
    have f4: "\<And>ext. h_own (st @ ext) (h_prop st config ''thresholds'') = h_own st (h_prop st config ''thresholds'')"
      by (rule h_own_append[OF v(4)])
    have oc2: "\<And>e1 e2. h_own ((st @ e1) @ e2) config = h_own st config"
      using oc by simp
    from False show ?thesis
      unfolding mergeConfigs_st_def merge_fails_def merged_cells_def alloc_def Let_def
        ts_def[symmetric] own_def[symmetric] c0
      by (simp add: c0 c t oc2 f1 f2 f4 del: h_prop.simps h_own.simps append_assoc)
  qed
qed

lemma deep_equal_refl: "deep_equal n st v v"
  by (cases n) simp_all

lemma deep_equal_cells:
  assumes "cell_at st a = Some (Obj (es @ [(k, HRef t1)]))"
    and "cell_at st b = Some (Obj (es @ [(k, HRef t2)]))"
    and "cell_at st t1 = Some (Obj ts)" and "cell_at st t2 = Some (Obj ts)"
  shows "deep_equal 2 st (HRef a) (HRef b)"
proof -
  have r0: "list_all2 (deep_equal 0 st) (map snd ts) (map snd ts)"
    by (rule list_all2_refl) simp
  have t: "deep_equal (Suc 0) st (HRef t1) (HRef t2)"
    using assms(3,4) r0 by simp
  have r1: "list_all2 (deep_equal (Suc 0) st) (map snd es) (map snd es)"
    by (rule list_all2_refl) (rule deep_equal_refl)
  have "list_all2 (deep_equal (Suc 0) st) (map snd (es @ [(k, HRef t1)])) (map snd (es @ [(k, HRef t2)]))"
    using r1 t by (simp add: list_all2_appendI del: deep_equal.simps)
  then have "deep_equal (Suc (Suc 0)) st (HRef a) (HRef b)"
    using assms(1,2) by (simp del: deep_equal.simps(2) add: deep_equal.simps(2)[of "Suc 0"])
  then show ?thesis by (simp only: numeral_2_eq_2)
qed

lemma reads_stable:
  assumes "suites < length st" "valid st endpoint"
    and "valid st (h_prop st (HRef suites) name)"
    and "valid st (h_prop st (h_prop st (HRef suites) name) ''config'')"
    and "valid st (h_prop st endpoint ''testConfig'')"
    and "valid st (h_prop st (h_prop st endpoint ''testConfig'') name)"
    and "valid st (h_prop st (h_prop st (h_prop st (HRef suites) name) ''config'') ''thresholds'')"
    and "valid st (h_prop st (h_prop st (h_prop st endpoint ''testConfig'') name) ''thresholds'')"
  shows "merge_fails (st @ ext) suites endpoint name = merge_fails st suites endpoint name"
    and "merged_cells (st @ ext) suites endpoint name base = merged_cells st suites endpoint name base"
    and "h_prop (st @ ext) (HRef suites) name = h_prop st (HRef suites) name"
    and "h_prop (st @ ext) (h_prop (st @ ext) (HRef suites) name) ''config'' =
         h_prop st (h_prop st (HRef suites) name) ''config''"
    and "h_prop (st @ ext) (h_prop (st @ ext) endpoint ''testConfig'') name =
         h_prop st (h_prop st endpoint ''testConfig'') name"
    and "h_prop (st @ ext) (h_prop (st @ ext) (h_prop (st @ ext) (HRef suites) name) ''config'') ''thresholds'' =
         h_prop st (h_prop st (h_prop st (HRef suites) name) ''config'') ''thresholds''"
proof -
  have s: "valid st (HRef suites)" using assms(1) by simp
  note p = h_prop_append[OF s, of ext] h_prop_append[OF assms(2), of ext]
    h_prop_append[OF assms(3), of ext] h_prop_append[OF assms(4), of ext]
    h_prop_append[OF assms(5), of ext] h_prop_append[OF assms(6), of ext]
  note o = h_own_append[OF assms(4), of ext] h_own_append[OF assms(6), of ext]
    h_own_append[OF assms(7), of ext] h_own_append[OF assms(8), of ext]
  show "merge_fails (st @ ext) suites endpoint name = merge_fails st suites endpoint name"
    unfolding merge_fails_def Let_def by (simp only: p)
  show "merged_cells (st @ ext) suites endpoint name base = merged_cells st suites endpoint name base"
    unfolding merged_cells_def Let_def
    by (simp add: p o del: h_prop.simps h_own.simps)
  show "h_prop (st @ ext) (HRef suites) name = h_prop st (HRef suites) name" by (simp only: p)
  show "h_prop (st @ ext) (h_prop (st @ ext) (HRef suites) name) ''config'' =
         h_prop st (h_prop st (HRef suites) name) ''config''" by (simp only: p)
  show "h_prop (st @ ext) (h_prop (st @ ext) endpoint ''testConfig'') name =
         h_prop st (h_prop st endpoint ''testConfig'') name" by (simp only: p)
  show "h_prop (st @ ext) (h_prop (st @ ext) (h_prop (st @ ext) (HRef suites) name) ''config'') ''thresholds'' =
         h_prop st (h_prop st (h_prop st (HRef suites) name) ''config'') ''thresholds''" by (simp only: p)
qed

lemma merged_cells_shape:
  "\<exists>pre ts es. merged_cells st suites endpoint name base =
       pre @ [Obj ts, Obj (es @ [(''thresholds'', HRef (base + length pre))])] \<and>
     (\<forall>base'. merged_cells st suites endpoint name base' =
       pre @ [Obj ts, Obj (es @ [(''thresholds'', HRef (base' + length pre))])])"
  unfolding merged_cells_def Let_def
  by (metis append.assoc)

text \<open>
  C8. In a closed store, a call of \<open>mergeConfigs\<close> that returns leaves every cell that
  existed before as it was (the endpoint, the suite registry and everything they refer
  to): it only appends the new objects. A second call with the same arguments, made in the
  resulting store, returns as well, again without changing an existing cell, and its
  result is deep-equal to the first.
\<close>

theorem mergeConfigs_st_pure:
  assumes "closed st" and "suites < length st" and "valid st endpoint"
    and "mergeConfigs_st st suites endpoint name = Inr (r1, st1)"
  shows "take (length st) st1 = st \<and>
         (\<exists>r2 st2. mergeConfigs_st st1 suites endpoint name = Inr (r2, st2) \<and>
                    take (length st1) st2 = st1 \<and> deep_equal 2 st2 r1 r2)"
proof -
  have s: "valid st (HRef suites)" using assms(2) by simp
  note c = assms(1)
  have v1: "valid st (h_prop st (HRef suites) name)" by (rule valid_h_prop[OF c s])
  have v2: "valid st (h_prop st (h_prop st (HRef suites) name) ''config'')"
    by (rule valid_h_prop[OF c v1])
  have v3: "valid st (h_prop st endpoint ''testConfig'')" by (rule valid_h_prop[OF c assms(3)])
  have v4: "valid st (h_prop st (h_prop st endpoint ''testConfig'') name)"
    by (rule valid_h_prop[OF c v3])
  have v5: "valid st (h_prop st (h_prop st (h_prop st (HRef suites) name) ''config'') ''thresholds'')"
    by (rule valid_h_prop[OF c v2])
  have v6: "valid st (h_prop st (h_prop st (h_prop st endpoint ''testConfig'') name) ''thresholds'')"
    by (rule valid_h_prop[OF c v4])
  let ?cells = "merged_cells st suites endpoint name (length st)"
  from assms(4) merge_char[OF v1 v2 v4 v5]
  have nf: "merge_fails st suites endpoint name = None"
    and r1: "r1 = HRef (length st + length ?cells - 1)" and st1: "st1 = st @ ?cells"
    by (auto split: option.splits)
  note stable = reads_stable[OF assms(2,3) v1 v2 v3 v4 v5 v6, of ?cells]
  let ?cells2 = "merged_cells st suites endpoint name (length st1)"
  have w1: "valid st1 (h_prop st1 (HRef suites) name)"
    unfolding st1 stable(3) by (rule valid_append[OF v1])
  have w2: "valid st1 (h_prop st1 (h_prop st1 (HRef suites) name) ''config'')"
    unfolding st1 stable(4) by (rule valid_append[OF v2])
  have w4: "valid st1 (h_prop st1 (h_prop st1 endpoint ''testConfig'') name)"
    unfolding st1 stable(5) by (rule valid_append[OF v4])
  have w5: "valid st1 (h_prop st1 (h_prop st1 (h_prop st1 (HRef suites) name) ''config'') ''thresholds'')"
    unfolding st1 stable(6) by (rule valid_append[OF v5])
  have second: "mergeConfigs_st st1 suites endpoint name =
     Inr (HRef (length st1 + length ?cells2 - 1), st1 @ ?cells2)"
    using merge_char[OF w1 w2 w4 w5] nf
    unfolding st1 stable(1) stable(2) by simp
  from merged_cells_shape[of st suites endpoint name "length st"] obtain pre ts es where
    sh: "\<And>base. merged_cells st suites endpoint name base =
       pre @ [Obj ts, Obj (es @ [(''thresholds'', HRef (base + length pre))])]"
    by blast
  let ?st2 = "st1 @ ?cells2"
  have l1: "length st1 = length st + length pre + 2" unfolding st1 sh by simp
  have a: "cell_at ?st2 (length st + length ?cells - 1) =
             Some (Obj (es @ [(''thresholds'', HRef (length st + length pre))]))"
    unfolding st1 sh by (simp add: cell_at_def nth_append)
  have b: "cell_at ?st2 (length st1 + length ?cells2 - 1) =
             Some (Obj (es @ [(''thresholds'', HRef (length st1 + length pre))]))"
    unfolding sh l1 by (simp add: cell_at_def nth_append st1 sh)
  have t1: "cell_at ?st2 (length st + length pre) = Some (Obj ts)"
    unfolding st1 sh by (simp add: cell_at_def nth_append)
  have t2: "cell_at ?st2 (length st1 + length pre) = Some (Obj ts)"
    unfolding sh l1 by (simp add: cell_at_def nth_append st1 sh)
  have d: "deep_equal 2 ?st2 r1 (HRef (length st1 + length ?cells2 - 1))"
    unfolding r1 by (rule deep_equal_cells[OF a b t1 t2])
  have p1: "take (length st) st1 = st" unfolding st1 by simp
  have p2: "take (length st1) ?st2 = st1" by simp
  from p1 second p2 d show ?thesis by blast
qed

theorem mergeConfigs_st_pure_witness:
  "\<exists>r1 st1 r2 st2.
     mergeConfigs_st
       [Obj [(''smoke'', HRef 1)], Obj [(''config'', HRef 2)],
        Obj [(''vus'', HNum 1), (''thresholds'', HRef 3)],
        Obj [(''http_req_failed'', HStr ''rate<0.01'')],
        Obj [(''testConfig'', HRef 5)], Obj [(''smoke'', HRef 6)],
        Obj [(''vus'', HNum 7), (''thresholds'', HRef 7)],
        Obj [(''checks'', HStr ''rate>0.9'')]] 0 (HRef 4) ''smoke'' = Inr (r1, st1) \<and>
     take 8 st1 =
       [Obj [(''smoke'', HRef 1)], Obj [(''config'', HRef 2)],
        Obj [(''vus'', HNum 1), (''thresholds'', HRef 3)],
        Obj [(''http_req_failed'', HStr ''rate<0.01'')],
        Obj [(''testConfig'', HRef 5)], Obj [(''smoke'', HRef 6)],
        Obj [(''vus'', HNum 7), (''thresholds'', HRef 7)],
        Obj [(''checks'', HStr ''rate>0.9'')]] \<and>
     mergeConfigs_st st1 0 (HRef 4) ''smoke'' = Inr (r2, st2) \<and>
     take (length st1) st2 = st1 \<and> deep_equal 2 st2 r1 r2"
proof -
  let ?st = "[Obj [(''smoke'', HRef 1)], Obj [(''config'', HRef 2)],
        Obj [(''vus'', HNum 1), (''thresholds'', HRef 3)],
        Obj [(''http_req_failed'', HStr ''rate<0.01'')],
        Obj [(''testConfig'', HRef 5)], Obj [(''smoke'', HRef 6)],
        Obj [(''vus'', HNum 7), (''thresholds'', HRef 7)],
        Obj [(''checks'', HStr ''rate>0.9'')]]"
  have c: "closed ?st" by (simp add: closed_def)
  have s: "0 < length ?st" by simp
  have v: "valid ?st (HRef 4)" by simp
  have "\<exists>r1 st1. mergeConfigs_st ?st 0 (HRef 4) ''smoke'' = Inr (r1, st1)"
    by (simp add: mergeConfigs_st_def cell_at_def h_lookup_def alloc_def Let_def)
  then obtain r1 st1 where m: "mergeConfigs_st ?st 0 (HRef 4) ''smoke'' = Inr (r1, st1)" by blast
  from mergeConfigs_st_pure[OF c s v m] obtain r2 st2 where
    p: "take (length ?st) st1 = ?st" and
    q: "mergeConfigs_st st1 0 (HRef 4) ''smoke'' = Inr (r2, st2)" "take (length st1) st2 = st1"
       "deep_equal 2 st2 r1 r2"
    by blast
  have "length ?st = 8" by simp
  with p have p': "take 8 st1 = ?st" by (simp only:)
  from m p' q show ?thesis by blast
qed

end
